theory Spec2Isabelle
  imports Complex_Main "HOL-Library.Sublist"
begin

section \<open>JavaScript values\<close>

text \<open>
  The dashboard script \<^verbatim>\<open>frontend/app.js\<close> works on values that come out of
  \<^verbatim>\<open>JSON.parse\<close> and on \<^verbatim>\<open>undefined\<close> (a missing property).  A Number is
  \<^verbatim>\<open>NaN\<close>, an infinity, or finite; a finite Number is represented by the real number
  it denotes exactly (every IEEE double is a rational number), and negative zero is identified
  with zero (the script never distinguishes them: \<^verbatim>\<open>-0\<close> is falsy, \<^verbatim>\<open>-0 >= 0\<close> holds and
  \<^verbatim>\<open>-0\<close> prints as \<^verbatim>\<open>0\<close>).  Strings are byte lists; characters beyond ASCII
  appear in their UTF-8 encoding.  An object is the list of its own properties.
\<close>

datatype jsnum = NaN | PosInf | NegInf | Fin real

datatype jsval =
    Undefined
  | Null
  | Bool bool
  | Num jsnum
  | Str string
  | Arr "jsval list"
  | Obj "(string \<times> jsval) list"

datatype error =
    TypeError
  | SyntaxError
  | HttpError nat
  | NetworkError
  | StorageError

text \<open>An exception ends the evaluation of an expression: errors are threaded through.\<close>

definition and_then :: "error + 'a \<Rightarrow> ('a \<Rightarrow> error + 'b) \<Rightarrow> error + 'b" where
  "and_then m f = (case m of Inl e \<Rightarrow> Inl e | Inr x \<Rightarrow> f x)"

text \<open>\<^verbatim>\<open>ToBoolean\<close>, as used by \<^verbatim>\<open>!!d\<close>, \<^verbatim>\<open>||\<close>, \<^verbatim>\<open>&&\<close>, \<^verbatim>\<open>?:\<close> and \<^verbatim>\<open>if\<close>.\<close>

fun truthy :: "jsval \<Rightarrow> bool" where
  "truthy Undefined = False"
| "truthy Null = False"
| "truthy (Bool b) = b"
| "truthy (Num n) = (n \<noteq> NaN \<and> n \<noteq> Fin 0)"
| "truthy (Str s) = (s \<noteq> [])"
| "truthy (Arr xs) = True"
| "truthy (Obj fs) = True"

text \<open>The relational operators on Numbers: every comparison with \<^verbatim>\<open>NaN\<close> is false.\<close>

fun num_lt :: "jsnum \<Rightarrow> jsnum \<Rightarrow> bool" where
  "num_lt NaN b = False"
| "num_lt a NaN = False"
| "num_lt PosInf b = False"
| "num_lt a NegInf = False"
| "num_lt NegInf b = True"
| "num_lt a PosInf = True"
| "num_lt (Fin a) (Fin b) = (a < b)"

definition num_le :: "jsnum \<Rightarrow> jsnum \<Rightarrow> bool" where
  "num_le a b = (a \<noteq> NaN \<and> b \<noteq> NaN \<and> (a = b \<or> num_lt a b))"

text \<open>\<^verbatim>\<open>Math.min\<close> and \<^verbatim>\<open>Math.max\<close> of two arguments.\<close>

definition js_min :: "jsnum \<Rightarrow> jsnum \<Rightarrow> jsnum" where
  "js_min a b = (if a = NaN \<or> b = NaN then NaN else if num_lt b a then b else a)"

definition js_max :: "jsnum \<Rightarrow> jsnum \<Rightarrow> jsnum" where
  "js_max a b = (if a = NaN \<or> b = NaN then NaN else if num_lt a b then b else a)"

subsection \<open>The host platform\<close>

text \<open>
  What the script leaves to the engine and whose result depends on the locale, on the
  Unicode tables or on IEEE rounding is a parameter of the model:
  \<^item> \<open>string_to_number\<close>: \<^verbatim>\<open>StringToNumber\<close>, the value \<^verbatim>\<open>Number(s)\<close> of a string;
  \<^item> \<open>shortest_digits\<close>: the digits and the exponent \<open>n\<close> that \<^verbatim>\<open>Number::toString\<close> takes
    for a positive finite Number whose exact decimal expansion has more than 15 significant
    digits (the shortest decimal that denotes the Number, the closest to it if several);
  \<^item> \<open>to_locale_string\<close>: \<^verbatim>\<open>x.toLocaleString(undefined, {maximumFractionDigits: k})\<close>, in
    the default locale of the runtime;
  \<^item> \<open>date_to_locale_string\<close>: \<^verbatim>\<open>new Date(v).toLocaleString()\<close> for a primitive \<open>v\<close>;
  \<^item> \<open>upper_unicode\<close>: \<^verbatim>\<open>s.toUpperCase()\<close> for a string with a character beyond ASCII.
\<close>

record platform =
  string_to_number :: "string \<Rightarrow> jsnum"
  shortest_digits :: "real \<Rightarrow> string \<times> int"
  to_locale_string :: "jsnum \<Rightarrow> nat \<Rightarrow> string"
  date_to_locale_string :: "jsval \<Rightarrow> string"
  upper_unicode :: "string \<Rightarrow> string"

subsection \<open>Number to string\<close>

definition digit_char :: "nat \<Rightarrow> char" where
  "digit_char d = ''0123456789'' ! d"

fun digits_of :: "nat \<Rightarrow> string" where
  "digits_of n = (if n < 10 then [digit_char n] else digits_of (n div 10) @ [digit_char (n mod 10)])"

declare digits_of.simps [simp del]

text \<open>\<open>frac_shift b r j\<close>: the least \<open>i \<ge> j\<close>, at most \<open>j + b\<close>, with \<open>r * 10 ^ i\<close> an integer.\<close>

fun frac_shift :: "nat \<Rightarrow> real \<Rightarrow> nat \<Rightarrow> (nat \<times> nat) option" where
  "frac_shift b r j =
     (if of_int \<lfloor>r * 10 ^ j\<rfloor> = r * 10 ^ j then Some (nat \<lfloor>r * 10 ^ j\<rfloor>, j)
      else case b of 0 \<Rightarrow> None | Suc b' \<Rightarrow> frac_shift b' r (Suc j))"

declare frac_shift.simps [simp del]

fun strip10 :: "nat \<Rightarrow> nat \<Rightarrow> nat \<times> nat" where
  "strip10 m t = (if m \<noteq> 0 \<and> m mod 10 = 0 then strip10 (m div 10) (Suc t) else (m, t))"

declare strip10.simps [simp del]

text \<open>
  \<^verbatim>\<open>Number::toString\<close>, steps 6 to 10: \<open>ds\<close> are the \<open>k\<close> digits of \<open>s\<close> and the value is
  \<open>s * 10 ^ (n - k)\<close>.  Plain notation for \<open>-5 \<le> n \<le> 21\<close>, exponent notation otherwise.
\<close>

definition fmt_decimal :: "string \<Rightarrow> int \<Rightarrow> string" where
  "fmt_decimal ds n =
     (let k = int (length ds) in
      if - 5 \<le> n \<and> n \<le> 21 then
        (if k \<le> n then ds @ replicate (nat (n - k)) (CHR ''0'')
         else if 0 < n then take (nat n) ds @ ''.'' @ drop (nat n) ds
         else ''0.'' @ replicate (nat (- n)) (CHR ''0'') @ ds)
      else
        (let sgn = (if 0 < n - 1 then ''+'' else ''-'');
             ex = digits_of (nat \<bar>n - 1\<bar>)
         in if k = 1 then ds @ ''e'' @ sgn @ ex
            else take 1 ds @ ''.'' @ drop 1 ds @ ''e'' @ sgn @ ex))"

text \<open>
  \<^verbatim>\<open>Number::toString\<close>, steps 1 to 5: the digits \<open>ds\<close> and the exponent \<open>n\<close> of the shortest
  decimal that denotes a positive Number.  A Number with an exact decimal expansion of at
  most 15 significant digits has that expansion for its shortest decimal (no shorter or
  other decimal of at most 15 digits denotes the same double); the others are left to the
  platform, here \<open>sd\<close>.
\<close>

definition shortest_decimal :: "(real \<Rightarrow> string \<times> int) \<Rightarrow> real \<Rightarrow> string \<times> int" where
  "shortest_decimal sd r =
     (case frac_shift 30 r 0 of
        None \<Rightarrow> sd r
      | Some (m, j) \<Rightarrow>
          (case strip10 m 0 of
             (s, t) \<Rightarrow>
               (let ds = digits_of s in
                if length ds \<le> 15 then (ds, int (length ds) + int t - int j)
                else sd r)))"

text \<open>A Number with an exact decimal expansion of at most 15 significant digits.\<close>

definition short_decimal :: "real \<Rightarrow> bool" where
  "short_decimal r =
     (case frac_shift 30 r 0 of
        None \<Rightarrow> False
      | Some (m, j) \<Rightarrow> length (digits_of (fst (strip10 m 0))) \<le> 15)"

definition pos_to_string :: "platform \<Rightarrow> real \<Rightarrow> string" where
  "pos_to_string P r =
     (case shortest_decimal (shortest_digits P) r of (ds, n) \<Rightarrow> fmt_decimal ds n)"

fun numToString :: "platform \<Rightarrow> jsnum \<Rightarrow> string" where
  "numToString P NaN = ''NaN''"
| "numToString P PosInf = ''Infinity''"
| "numToString P NegInf = ''-Infinity''"
| "numToString P (Fin r) =
     (if r = 0 then ''0''
      else if r < 0 then ''-'' @ pos_to_string P (- r)
      else pos_to_string P r)"

subsection \<open>Conversions\<close>

text \<open>
  \<^verbatim>\<open>ToString\<close>, as applied by a template literal and by \<^verbatim>\<open>Array.prototype.join\<close>.  An
  array prints its elements joined by commas, \<^verbatim>\<open>null\<close> and \<^verbatim>\<open>undefined\<close> elements as
  the empty string.  An object prints through \<^verbatim>\<open>Object.prototype.toString\<close>, unless an own
  property \<^verbatim>\<open>toString\<close> (never callable in a JSON value) hides it: then the conversion
  throws.
\<close>

fun toStr :: "platform \<Rightarrow> jsval \<Rightarrow> error + string"
  and joinElems :: "platform \<Rightarrow> jsval list \<Rightarrow> error + string" where
  "toStr P Undefined = Inr ''undefined''"
| "toStr P Null = Inr ''null''"
| "toStr P (Bool b) = Inr (if b then ''true'' else ''false'')"
| "toStr P (Num n) = Inr (numToString P n)"
| "toStr P (Str s) = Inr s"
| "toStr P (Arr xs) = joinElems P xs"
| "toStr P (Obj fs) = (if map_of fs ''toString'' = None then Inr ''[object Object]'' else Inl TypeError)"
| "joinElems P [] = Inr []"
| "joinElems P (x # xs) =
     and_then (if x = Undefined \<or> x = Null then Inr [] else toStr P x) (\<lambda>a.
       if xs = [] then Inr a
       else and_then (joinElems P xs) (\<lambda>b. Inr (a @ '','' @ b)))"

text \<open>\<^verbatim>\<open>Number(v)\<close>: \<^verbatim>\<open>ToNumber\<close>, an array or object first converted to a primitive.\<close>

fun toNumber :: "platform \<Rightarrow> jsval \<Rightarrow> error + jsnum" where
  "toNumber P Undefined = Inr NaN"
| "toNumber P Null = Inr (Fin 0)"
| "toNumber P (Bool b) = Inr (Fin (if b then 1 else 0))"
| "toNumber P (Num n) = Inr n"
| "toNumber P (Str s) = Inr (string_to_number P s)"
| "toNumber P (Arr xs) = and_then (joinElems P xs) (\<lambda>s. Inr (string_to_number P s))"
| "toNumber P (Obj fs) = (if map_of fs ''toString'' = None then Inr NaN else Inl TypeError)"

text \<open>
  Reading a data property \<^verbatim>\<open>v.name\<close>.  The script reads only the snapshot's and the
  transaction's field names; no primitive, array or prototype has a property of such a
  name, so the read gives \<^verbatim>\<open>undefined\<close> on anything but an object that owns it, and
  throws on \<^verbatim>\<open>null\<close> and \<^verbatim>\<open>undefined\<close>.
\<close>

fun fld :: "jsval \<Rightarrow> string \<Rightarrow> jsval" where
  "fld (Obj fs) name = (case map_of fs name of None \<Rightarrow> Undefined | Some v \<Rightarrow> v)"
| "fld v name = Undefined"

definition getField :: "jsval \<Rightarrow> string \<Rightarrow> error + jsval" where
  "getField v name = (if v = Null \<or> v = Undefined then Inl TypeError else Inr (fld v name))"

section \<open>The script\<close>

subsection \<open>API base\<close>

text \<open>
  \<^verbatim>\<open>const isLocal = /^(localhost|127\.)/.test(location.hostname);\<close>
  \<^verbatim>\<open>const API_BASE = (window.API_BASE || (isLocal ? 'http://127.0.0.1:8000' : '')).replace(/\/+$/, '');\<close>
  The regular expression is anchored at the start only.  \<^verbatim>\<open>/\/+$/\<close> matches the maximal
  run of slashes that ends the string.  A truthy override that is not a string has no
  \<^verbatim>\<open>replace\<close> method.
\<close>

definition isLocal :: "string \<Rightarrow> bool" where
  "isLocal hostname = (prefix ''localhost'' hostname \<or> prefix ''127.'' hostname)"

definition strip_trailing_slashes :: "string \<Rightarrow> string" where
  "strip_trailing_slashes s = rev (dropWhile (\<lambda>c. c = CHR ''/'') (rev s))"

definition API_BASE :: "string \<Rightarrow> jsval \<Rightarrow> error + string" where
  "API_BASE hostname override =
     (case (if truthy override then override
            else Str (if isLocal hostname then ''http://127.0.0.1:8000'' else '''')) of
        Str s \<Rightarrow> Inr (strip_trailing_slashes s)
      | _ \<Rightarrow> Inl TypeError)"

subsection \<open>Usable snapshots\<close>

text \<open>
  \<^verbatim>\<open>const isUsable = (d) => !!d && (Number(d.price_usd) > 0 || Number(d.market_cap_usd) > 0
     || (Array.isArray(d.transactions) && d.transactions.length>0));\<close>
\<close>

definition isUsable :: "platform \<Rightarrow> jsval \<Rightarrow> error + bool" where
  "isUsable P d =
     (if \<not> truthy d then Inr False
      else and_then (getField d ''price_usd'') (\<lambda>p.
           and_then (toNumber P p) (\<lambda>pn.
           if num_lt (Fin 0) pn then Inr True
           else and_then (getField d ''market_cap_usd'') (\<lambda>m.
                and_then (toNumber P m) (\<lambda>mn.
                if num_lt (Fin 0) mn then Inr True
                else and_then (getField d ''transactions'') (\<lambda>t.
                     Inr (case t of Arr xs \<Rightarrow> 0 < length xs | _ \<Rightarrow> False)))))))"

subsection \<open>The page\<close>

text \<open>
  The elements the script looks up by identifier, each with the three properties the
  script assigns.  The identified elements are taken as independent of one another.
\<close>

record element =
  textContent :: string
  innerHTML :: string
  style_width :: string

type_synonym dom = "string \<rightharpoonup> element"

text \<open>
  \<^verbatim>\<open>function setWidth(el, pct){ if(!el) return;
     const v=Math.max(0, Math.min(100, Number(pct)||0)); el.style.width=`${v}%`; }\<close>
  The result is the element after the call (\<open>None\<close> for \<^verbatim>\<open>null\<close>).
\<close>

definition setWidth :: "platform \<Rightarrow> element option \<Rightarrow> jsval \<Rightarrow> error + element option" where
  "setWidth P el pct =
     (case el of
        None \<Rightarrow> Inr None
      | Some e \<Rightarrow>
          and_then (toNumber P pct) (\<lambda>n.
            let v = js_max (Fin 0) (js_min (Fin 100) (if truthy (Num n) then n else Fin 0))
            in Inr (Some (e\<lparr>style_width := numToString P v @ ''%''\<rparr>))))"

subsection \<open>Number formatting\<close>

text \<open>
  \<^verbatim>\<open>Number.prototype.toFixed(f)\<close>: a Number that is not finite, or of magnitude \<open>10 ^ 21\<close> or
  more, prints as \<^verbatim>\<open>Number::toString\<close> does; otherwise the digits are those of the integer
  \<open>n\<close> nearest to \<open>x * 10 ^ f\<close> (the larger one on a tie), padded with zeros to more than
  \<open>f\<close> digits, with a point before the last \<open>f\<close>.
\<close>

definition fixed_digits :: "real \<Rightarrow> nat \<Rightarrow> string" where
  "fixed_digits a f =
     (let m = digits_of (nat \<lfloor>a * 10 ^ f + 1 / 2\<rfloor>) in
      if f \<noteq> 0 then
        (let m' = (if length m \<le> f then replicate (f + 1 - length m) (CHR ''0'') @ m else m);
             k = length m'
         in take (k - f) m' @ ''.'' @ drop (k - f) m')
      else m)"

definition toFixed :: "platform \<Rightarrow> jsnum \<Rightarrow> nat \<Rightarrow> string" where
  "toFixed P x f =
     (case x of
        Fin r \<Rightarrow>
          (let s = (if r < 0 then ''-'' else []) in
           if 10 ^ 21 \<le> \<bar>r\<bar> then s @ numToString P (Fin \<bar>r\<bar>)
           else s @ fixed_digits \<bar>r\<bar> f)
      | _ \<Rightarrow> numToString P x)"

text \<open>\<open>lead_exp a j\<close>, for \<open>0 < a\<close>: the least \<open>i \<ge> j\<close> with \<open>1 \<le> a * 10 ^ i\<close>.\<close>

function lead_exp :: "real \<Rightarrow> nat \<Rightarrow> nat" where
  "lead_exp a j = (if a \<le> 0 \<or> 1 \<le> a * 10 ^ j then j else lead_exp a (Suc j))"
  by pat_completeness auto
termination
proof (relation "measure (\<lambda>(a, j). nat \<lceil>1 / a\<rceil> - j)")
  show "wf (measure (\<lambda>(a, j). nat \<lceil>1 / a\<rceil> - j))"
    by simp
next
  fix a :: real and j :: nat
  assume "\<not> (a \<le> 0 \<or> 1 \<le> a * 10 ^ j)"
  then have pos: "0 < a" and small: "a * 10 ^ j < 1"
    by auto
  have "j < 2 ^ j"
    by (rule less_exp)
  also have "(2::nat) ^ j \<le> 10 ^ j"
    by (rule power_mono) simp_all
  finally have "real j < real (10 ^ j)"
    by (simp only: of_nat_less_iff)
  then have "real j < 10 ^ j"
    by simp
  also have "\<dots> < 1 / a"
    using pos small by (simp add: pos_less_divide_eq mult.commute)
  also have "\<dots> \<le> of_int \<lceil>1 / a\<rceil>"
    by simp
  finally have "int j < \<lceil>1 / a\<rceil>"
    by (metis of_int_less_iff of_int_of_nat_eq)
  then have "j < nat \<lceil>1 / a\<rceil>"
    by simp
  then show "((a, Suc j), (a, j)) \<in> measure (\<lambda>(a, j). nat \<lceil>1 / a\<rceil> - j)"
    by simp
qed

declare lead_exp.simps [simp del]

text \<open>
  \<^verbatim>\<open>Number.prototype.toExponential(f)\<close>: the exponent \<open>e\<close> and the integer \<open>n\<close> of \<open>f + 1\<close>
  digits with \<open>n * 10 ^ (e - f)\<close> nearest to \<open>a\<close> (the larger one on a tie).  With \<open>e0\<close> the
  decimal exponent of \<open>a\<close>, that is \<open>a\<close> scaled by \<open>10 ^ (f - e0)\<close> and rounded, carried
  into the next exponent when the rounding reaches \<open>10 ^ (f + 1)\<close>.
\<close>

definition exp_round :: "real \<Rightarrow> nat \<Rightarrow> nat \<times> int" where
  "exp_round a f =
     (let big = (1 \<le> a);
          up = (if big then length (digits_of (nat \<lfloor>a\<rfloor>)) - 1 else 0);
          down = (if big then 0 else lead_exp a 1);
          e0 = int up - int down;
          n0 = nat \<lfloor>a / 10 ^ up * 10 ^ down * 10 ^ f + 1 / 2\<rfloor>
      in if n0 = 10 ^ (f + 1) then (10 ^ f, e0 + 1) else (n0, e0))"

definition exp_fmt :: "string \<Rightarrow> int \<Rightarrow> nat \<Rightarrow> string" where
  "exp_fmt m e f =
     (if f \<noteq> 0 then take 1 m @ ''.'' @ drop 1 m else m) @ ''e'' @
     (if e = 0 then ''+0'' else (if 0 < e then ''+'' else ''-'') @ digits_of (nat \<bar>e\<bar>))"

definition toExponential :: "platform \<Rightarrow> jsnum \<Rightarrow> nat \<Rightarrow> string" where
  "toExponential P x f =
     (case x of
        Fin r \<Rightarrow>
          (if r < 0 then ''-'' else []) @
          (if r = 0 then exp_fmt (replicate (f + 1) (CHR ''0'')) 0 f
           else case exp_round \<bar>r\<bar> f of (n, e) \<Rightarrow> exp_fmt (digits_of n) e f)
      | _ \<Rightarrow> numToString P x)"

text \<open>
  The decimal literals of the script denote doubles: \<^verbatim>\<open>0.01\<close> is
  \<open>5764607523034235 / 2 ^ 59\<close> and \<^verbatim>\<open>0.000001\<close> is \<open>4722366482869645 / 2 ^ 72\<close>.
\<close>

definition lit_0_01 :: real where
  "lit_0_01 = 5764607523034235 / 2 ^ 59"

definition lit_0_000001 :: real where
  "lit_0_000001 = 4722366482869645 / 2 ^ 72"

text \<open>\<^verbatim>\<open>x || 0\<close> for a Number \<open>x\<close>.\<close>

definition num_or_zero :: "jsnum \<Rightarrow> jsnum" where
  "num_or_zero x = (if truthy (Num x) then x else Fin 0)"

text \<open>
  \<^verbatim>\<open>const fmtUSD = (n) => `$${(Number(n)||0).toLocaleString(undefined,{maximumFractionDigits:2})}`;\<close>
\<close>

definition fmtUSD :: "platform \<Rightarrow> jsval \<Rightarrow> error + string" where
  "fmtUSD P n =
     and_then (toNumber P n) (\<lambda>x. Inr (''$'' @ to_locale_string P (num_or_zero x) 2))"

text \<open>
  \<^verbatim>\<open>const fmtPct = (n) => `${(n>=0?'+':'')}${Number(n||0).toLocaleString(undefined,{maximumFractionDigits:1})}%`;\<close>
  The comparison \<^verbatim>\<open>n >= 0\<close> converts \<open>n\<close> to a Number.
\<close>

definition fmtPct :: "platform \<Rightarrow> jsval \<Rightarrow> error + string" where
  "fmtPct P n =
     and_then (toNumber P n) (\<lambda>c.
     and_then (toNumber P (if truthy n then n else Num (Fin 0))) (\<lambda>x.
       Inr ((if num_le (Fin 0) c then ''+'' else []) @ to_locale_string P x 1 @ ''%'')))"

text \<open>
  \<^verbatim>\<open>const fmtPrice = (n) => {
    const p = Number(n) || 0;
    if (p >= 0.01) return `$${p.toFixed(4)}`;
    if (p >= 0.000001) return `$${p.toFixed(8)}`;
    if (p > 0) return `$${p.toExponential(2)}`;
    return '$0.00';
  };\<close>
\<close>

definition fmtPrice :: "platform \<Rightarrow> jsval \<Rightarrow> error + string" where
  "fmtPrice P n =
     and_then (toNumber P n) (\<lambda>x.
       let p = num_or_zero x in
       Inr (if num_le (Fin lit_0_01) p then ''$'' @ toFixed P p 4
            else if num_le (Fin lit_0_000001) p then ''$'' @ toFixed P p 8
            else if num_lt (Fin 0) p then ''$'' @ toExponential P p 2
            else ''$0.00''))"

text \<open>A digit string padded with zeros on the left to \<open>f\<close> digits.\<close>

definition zero_pad :: "nat \<Rightarrow> string \<Rightarrow> string" where
  "zero_pad f ds = replicate (f - length ds) (CHR ''0'') @ ds"

subsection \<open>Transaction cards\<close>

text \<open>
  \<^verbatim>\<open>String.prototype.toUpperCase\<close>: on ASCII text the letters \<^verbatim>\<open>a\<close> to \<^verbatim>\<open>z\<close> become
  \<^verbatim>\<open>A\<close> to \<^verbatim>\<open>Z\<close>; a truthy value that is not a string has no such method.
\<close>

definition ascii_upper :: "char \<Rightarrow> char" where
  "ascii_upper c =
     (case map_of (zip ''abcdefghijklmnopqrstuvwxyz'' ''ABCDEFGHIJKLMNOPQRSTUVWXYZ'') c of
        None \<Rightarrow> c
      | Some u \<Rightarrow> u)"

definition upper_case :: "platform \<Rightarrow> string \<Rightarrow> string" where
  "upper_case P s =
     (if list_all (\<lambda>c. \<not> digit7 c) s then map ascii_upper s else upper_unicode P s)"

definition toUpperCase :: "platform \<Rightarrow> jsval \<Rightarrow> error + string" where
  "toUpperCase P v = (case v of Str s \<Rightarrow> Inr (upper_case P s) | _ \<Rightarrow> Inl TypeError)"

text \<open>\<^verbatim>\<open>ToPrimitive\<close>, as \<^verbatim>\<open>new Date(v)\<close> applies it to its argument.\<close>

definition toPrimitive :: "platform \<Rightarrow> jsval \<Rightarrow> error + jsval" where
  "toPrimitive P v =
     (case v of
        Arr xs \<Rightarrow> and_then (toStr P v) (\<lambda>s. Inr (Str s))
      | Obj fs \<Rightarrow> and_then (toStr P v) (\<lambda>s. Inr (Str s))
      | _ \<Rightarrow> Inr v)"

definition icon_fire :: string where
  "icon_fire = [CHR 0xF0, CHR 0x9F, CHR 0x94, CHR 0xA5]"

definition icon_cyclone :: string where
  "icon_cyclone = [CHR 0xF0, CHR 0x9F, CHR 0x8C, CHR 0x80]"

definition icon_money :: string where
  "icon_money = [CHR 0xF0, CHR 0x9F, CHR 0x92, CHR 0xB8]"

definition icon_info :: string where
  "icon_info = [CHR 0xE2, CHR 0x84, CHR 0xB9, CHR 0xEF, CHR 0xB8, CHR 0x8F]"

definition em_dash :: string where
  "em_dash = [CHR 0xE2, CHR 0x80, CHR 0x94]"

text \<open>The anchor of a card: \<^verbatim>\<open><a href="${href}" ${safe} class="card-button block text-center">\<close>.\<close>

definition card_link :: "string \<Rightarrow> string \<Rightarrow> string" where
  \<open>card_link href safe =
     ''<a href="'' @ href @ ''" '' @ safe @
     '' class="card-button block text-center">VIEW TRANSACTION</a>''\<close>

definition card_html ::
  "string \<Rightarrow> string \<Rightarrow> string \<Rightarrow> string \<Rightarrow> string \<Rightarrow> string \<Rightarrow> string \<Rightarrow> string" where
  \<open>card_html icon title meta desc when href safe =
     ''\<newline>      <div class="card compact skinny flex-shrink-0 snap-start">\<newline>        <div class="flex items-center justify-center text-4xl text-neon mb-3">'' @
     icon @ ''</div>\<newline>        <h3 class="font-semibold mb-1">'' @
     title @ ''</h3>\<newline>        <div class="meta mb-2">'' @
     meta @ ''</div>\<newline>        <p class="text-xs mb-4">'' @
     desc @ ''<br><span class="opacity-60">'' @
     when @ ''</span></p>\<newline>        <div>'' @
     card_link href safe @ ''</div>\<newline>      </div>''\<close>

text \<open>
  The callback of \<^verbatim>\<open>(d.transactions || []).map(tx => ...)\<close>:
  \<^verbatim>\<open>
    const icon  = tx.kind==='burn'?...:tx.kind==='buyback'?...:tx.kind==='claim'?...:...;
    const title = tx.kind==='burn'?'Burn transaction':tx.kind==='buyback'?'Buy-back':tx.kind==='claim'?'Claim creator fee':'Event';
    const meta  = `${(tx.kind||'').toUpperCase()} - ${tx.amount_sol??0} SOL`;
    const desc  = tx.description || '';
    const when  = tx.timestamp ? new Date(tx.timestamp).toLocaleString() : '';
    const href  = tx.signature ? `https://solscan.io/tx/${tx.signature}` : '#';
    const safe  = tx.signature ? `target="_blank" rel="noreferrer"` : '';
    return `...`;\<close>
  (the dash of \<open>meta\<close> is an em dash in the source).
\<close>

definition txIcon :: "jsval \<Rightarrow> string" where
  "txIcon kind =
     (if kind = Str ''burn'' then icon_fire
      else if kind = Str ''buyback'' then icon_cyclone
      else if kind = Str ''claim'' then icon_money
      else icon_info)"

definition txTitle :: "jsval \<Rightarrow> string" where
  "txTitle kind =
     (if kind = Str ''burn'' then ''Burn transaction''
      else if kind = Str ''buyback'' then ''Buy-back''
      else if kind = Str ''claim'' then ''Claim creator fee''
      else ''Event'')"

definition txMeta :: "platform \<Rightarrow> jsval \<Rightarrow> jsval \<Rightarrow> error + string" where
  "txMeta P kind amount =
     and_then (toUpperCase P (if truthy kind then kind else Str [])) (\<lambda>up.
     and_then (toStr P (if amount = Null \<or> amount = Undefined then Num (Fin 0) else amount)) (\<lambda>amt.
       Inr (up @ '' '' @ em_dash @ '' '' @ amt @ '' SOL'')))"

definition txWhen :: "platform \<Rightarrow> jsval \<Rightarrow> error + string" where
  "txWhen P timestamp =
     (if truthy timestamp
      then and_then (toPrimitive P timestamp) (\<lambda>p. Inr (date_to_locale_string P p))
      else Inr [])"

definition txHref :: "platform \<Rightarrow> jsval \<Rightarrow> error + string" where
  "txHref P signature =
     (if truthy signature
      then and_then (toStr P signature) (\<lambda>s. Inr (''https://solscan.io/tx/'' @ s))
      else Inr ''#'')"

definition txSafe :: "jsval \<Rightarrow> string" where
  \<open>txSafe signature = (if truthy signature then ''target="_blank" rel="noreferrer"'' else [])\<close>

definition txCard :: "platform \<Rightarrow> jsval \<Rightarrow> error + string" where
  "txCard P tx =
     and_then (getField tx ''kind'') (\<lambda>kind.
     and_then (txMeta P kind (fld tx ''amount_sol'')) (\<lambda>meta.
     and_then (txWhen P (fld tx ''timestamp'')) (\<lambda>when.
     and_then (txHref P (fld tx ''signature'')) (\<lambda>href.
     and_then (toStr P (if truthy (fld tx ''description'') then fld tx ''description'' else Str [])) (\<lambda>desc.
       Inr (card_html (txIcon kind) (txTitle kind) meta desc when href
              (txSafe (fld tx ''signature''))))))))"

fun map_cards :: "platform \<Rightarrow> jsval list \<Rightarrow> error + string list" where
  "map_cards P [] = Inr []"
| "map_cards P (tx # txs) =
     and_then (txCard P tx) (\<lambda>c. and_then (map_cards P txs) (\<lambda>cs. Inr (c # cs)))"

subsection \<open>Rendering\<close>

text \<open>
  A statement either completes with a new page or throws and leaves the page as it
  was before the statement; a sequence stops at the first statement that throws.
\<close>

type_synonym stmt = "dom \<Rightarrow> error + dom"

fun run :: "stmt list \<Rightarrow> dom \<Rightarrow> dom \<times> error option" where
  "run [] D = (D, None)"
| "run (s # ss) D = (case s D of Inl e \<Rightarrow> (D, Some e) | Inr D' \<Rightarrow> run ss D')"

text \<open>\<^verbatim>\<open>if ($(i)) $(i).textContent = v;\<close>\<close>

definition set_text :: "string \<Rightarrow> error + string \<Rightarrow> stmt" where
  "set_text i v D =
     (case D i of
        None \<Rightarrow> Inr D
      | Some e \<Rightarrow> and_then v (\<lambda>s. Inr (D(i \<mapsto> e\<lparr>textContent := s\<rparr>))))"

text \<open>\<^verbatim>\<open>setWidth($(i), pct);\<close>: the argument is evaluated before the call.\<close>

definition call_setWidth :: "platform \<Rightarrow> string \<Rightarrow> error + jsval \<Rightarrow> stmt" where
  "call_setWidth P i arg D =
     and_then arg (\<lambda>pct. and_then (setWidth P (D i) pct) (\<lambda>el. Inr (D(i := el))))"

text \<open>
  \<^verbatim>\<open>if ($('contractAddress') && d.token_mint) { $('contractAddress').textContent = d.token_mint; }\<close>
\<close>

definition set_contract :: "platform \<Rightarrow> jsval \<Rightarrow> stmt" where
  "set_contract P d D =
     (case D ''contractAddress'' of
        None \<Rightarrow> Inr D
      | Some e \<Rightarrow>
          and_then (getField d ''token_mint'') (\<lambda>t.
            if truthy t
            then and_then (toStr P t) (\<lambda>s. Inr (D(''contractAddress'' \<mapsto> e\<lparr>textContent := s\<rparr>)))
            else Inr D))"

definition no_transactions :: string where
  \<open>no_transactions = ''<div class="text-sm opacity-70 px-2">No recent transactions.</div>''\<close>

text \<open>
  \<^verbatim>\<open>const list = $('txList'); if (!list) return;
  const cards = (d.transactions || []).map(tx => ...);
  list.innerHTML = cards.join('') || `<div class="text-sm opacity-70 px-2">No recent transactions.</div>`;\<close>
  Only an array has a \<^verbatim>\<open>map\<close> method.
\<close>

definition set_list :: "platform \<Rightarrow> jsval \<Rightarrow> stmt" where
  "set_list P d D =
     (case D ''txList'' of
        None \<Rightarrow> Inr D
      | Some e \<Rightarrow>
          and_then (getField d ''transactions'') (\<lambda>t.
            case (if truthy t then t else Arr []) of
              Arr txs \<Rightarrow>
                and_then (map_cards P txs) (\<lambda>cards.
                  Inr (D(''txList'' \<mapsto>
                    e\<lparr>innerHTML := (if concat cards \<noteq> [] then concat cards else no_transactions)\<rparr>)))
            | _ \<Rightarrow> Inl TypeError))"

text \<open>
  \<^verbatim>\<open>function renderDashboard(d)\<close>: the statements of its body in order.
  \<^verbatim>\<open>
  if ($('statPrice'))    $('statPrice').textContent    = fmtPrice(d.price_usd);
  if ($('statVolume'))   $('statVolume').textContent   = fmtPct(d.volume_change_pct);
  if ($('statBuybacks')) $('statBuybacks').textContent = fmtUSD(d.buybacks_usd);
  if ($('statBurned'))   $('statBurned').textContent   = fmtUSD(d.burned_usd);
  if ($('goalLabel'))    $('goalLabel').textContent    = `(${fmtUSD(d.market_cap_usd)} / ${fmtUSD(d.next_goal_usd)})`;
  if ($('goalPctLabel')) $('goalPctLabel').textContent = `${d.next_goal_progress_pct}%`;
  setWidth($('goalFill'), d.next_goal_progress_pct);
  if ($('burnPctLabel')) $('burnPctLabel').textContent = `${d.supply_burned_pct}%`;
  setWidth($('burnFill'), d.supply_burned_pct);\<close>
  then the contract address and the transaction list.
\<close>

definition render_stmts :: "platform \<Rightarrow> jsval \<Rightarrow> stmt list" where
  "render_stmts P d =
     [set_text ''statPrice'' (and_then (getField d ''price_usd'') (fmtPrice P)),
      set_text ''statVolume'' (and_then (getField d ''volume_change_pct'') (fmtPct P)),
      set_text ''statBuybacks'' (and_then (getField d ''buybacks_usd'') (fmtUSD P)),
      set_text ''statBurned'' (and_then (getField d ''burned_usd'') (fmtUSD P)),
      set_text ''goalLabel''
        (and_then (getField d ''market_cap_usd'') (\<lambda>m. and_then (fmtUSD P m) (\<lambda>a.
         and_then (getField d ''next_goal_usd'') (\<lambda>g. and_then (fmtUSD P g) (\<lambda>b.
           Inr (''('' @ a @ '' / '' @ b @ '')'')))))),
      set_text ''goalPctLabel''
        (and_then (getField d ''next_goal_progress_pct'') (\<lambda>v.
         and_then (toStr P v) (\<lambda>s. Inr (s @ ''%'')))),
      call_setWidth P ''goalFill'' (getField d ''next_goal_progress_pct''),
      set_text ''burnPctLabel''
        (and_then (getField d ''supply_burned_pct'') (\<lambda>v.
         and_then (toStr P v) (\<lambda>s. Inr (s @ ''%'')))),
      call_setWidth P ''burnFill'' (getField d ''supply_burned_pct''),
      set_contract P d,
      set_list P d]"

text \<open>The page after the call, and the exception if one was thrown.\<close>

definition renderDashboard :: "platform \<Rightarrow> jsval \<Rightarrow> dom \<Rightarrow> dom \<times> error option" where
  "renderDashboard P d = run (render_stmts P d)"

text \<open>A statement preserves the element \<open>k\<close> when it completes with \<open>k\<close> as it was.\<close>

definition preserves :: "string \<Rightarrow> stmt \<Rightarrow> bool" where
  "preserves k s = (\<forall>D D'. s D = Inr D' \<longrightarrow> D' k = D k)"

text \<open>A statement completes when it throws on no page.\<close>

definition completes :: "stmt \<Rightarrow> bool" where
  "completes s = (\<forall>D. \<exists>D'. s D = Inr D')"

text \<open>The statements before the transaction list.\<close>

definition render_head :: "platform \<Rightarrow> jsval \<Rightarrow> stmt list" where
  "render_head P d = butlast (render_stmts P d)"

subsection \<open>Well-typed snapshots\<close>

text \<open>
  The data model gives the fields of a snapshot numbers and strings.  A scalar is any
  value but an array or an object: a number, a string, a boolean, \<^verbatim>\<open>null\<close>, or
  \<^verbatim>\<open>undefined\<close> for a field that is absent.  The conversions of a scalar to a string and
  to a Number do not throw.
\<close>

definition scalar :: "jsval \<Rightarrow> bool" where
  "scalar v = (case v of Arr xs \<Rightarrow> False | Obj fs \<Rightarrow> False | _ \<Rightarrow> True)"

definition snapshot_fields :: "string list" where
  "snapshot_fields =
     [''price_usd'', ''volume_change_pct'', ''buybacks_usd'', ''burned_usd'', ''market_cap_usd'',
      ''next_goal_usd'', ''next_goal_progress_pct'', ''supply_burned_pct'', ''token_mint'']"

definition well_typed :: "jsval \<Rightarrow> bool" where
  "well_typed d =
     (d \<noteq> Null \<and> d \<noteq> Undefined \<and> list_all (\<lambda>f. scalar (fld d f)) snapshot_fields)"

text \<open>The string a conversion gives where it does not throw.\<close>

definition str_of :: "platform \<Rightarrow> jsval \<Rightarrow> string" where
  "str_of P v = (case toStr P v of Inr s \<Rightarrow> s | Inl e \<Rightarrow> [])"

subsection \<open>The cache\<close>

text \<open>
  \<^verbatim>\<open>JSON.stringify(v)\<close> for a value of the model: \<open>None\<close> is the result \<^verbatim>\<open>undefined\<close>.  A
  Number that is not finite prints as \<^verbatim>\<open>null\<close>, an \<^verbatim>\<open>undefined\<close> array element too, and a
  property whose value is \<^verbatim>\<open>undefined\<close> is left out.
\<close>

definition hex_char :: "nat \<Rightarrow> char" where
  "hex_char d = ''0123456789abcdef'' ! d"

definition json_escape :: "char \<Rightarrow> string" where
  "json_escape c =
     (if c = CHR 0x08 then [CHR 0x5C, CHR ''b'']
      else if c = CHR 0x09 then [CHR 0x5C, CHR ''t'']
      else if c = CHR 0x0A then [CHR 0x5C, CHR ''n'']
      else if c = CHR 0x0C then [CHR 0x5C, CHR ''f'']
      else if c = CHR 0x0D then [CHR 0x5C, CHR ''r'']
      else if c = CHR 0x22 then [CHR 0x5C, CHR 0x22]
      else if c = CHR 0x5C then [CHR 0x5C, CHR 0x5C]
      else if (of_char c :: nat) < 32
        then [CHR 0x5C, CHR ''u'', CHR ''0'', CHR ''0'',
              hex_char (of_char c div 16), hex_char (of_char c mod 16)]
      else [c])"

definition json_quote :: "string \<Rightarrow> string" where
  "json_quote s = CHR 0x22 # concat (map json_escape s) @ [CHR 0x22]"

fun join_with :: "string \<Rightarrow> string list \<Rightarrow> string" where
  "join_with sep [] = []"
| "join_with sep [x] = x"
| "join_with sep (x # y # ys) = x @ sep @ join_with sep (y # ys)"

fun JSON_stringify :: "platform \<Rightarrow> jsval \<Rightarrow> string option"
  and stringify_elems :: "platform \<Rightarrow> jsval list \<Rightarrow> string list"
  and stringify_members :: "platform \<Rightarrow> (string \<times> jsval) list \<Rightarrow> string list" where
  "JSON_stringify P Undefined = None"
| "JSON_stringify P Null = Some ''null''"
| "JSON_stringify P (Bool b) = Some (if b then ''true'' else ''false'')"
| "JSON_stringify P (Num n) = Some (case n of Fin r \<Rightarrow> numToString P n | _ \<Rightarrow> ''null'')"
| "JSON_stringify P (Str s) = Some (json_quote s)"
| "JSON_stringify P (Arr xs) = Some (''['' @ join_with '','' (stringify_elems P xs) @ '']'')"
| "JSON_stringify P (Obj fs) = Some (''{'' @ join_with '','' (stringify_members P fs) @ ''}'')"
| "stringify_elems P [] = []"
| "stringify_elems P (x # xs) =
     (case JSON_stringify P x of None \<Rightarrow> ''null'' | Some s \<Rightarrow> s) # stringify_elems P xs"
| "stringify_members P [] = []"
| "stringify_members P ((k, v) # fs) =
     (case JSON_stringify P v of
        None \<Rightarrow> stringify_members P fs
      | Some s \<Rightarrow> (json_quote k @ '':'' @ s) # stringify_members P fs)"

text \<open>
  \<^verbatim>\<open>JSON.parse(text)\<close>, by recursive descent.  White space is skipped before a value and
  around the punctuation.  A string runs to the closing quote; a backslash starts one of
  the escapes of the JSON grammar, \<^verbatim>\<open>\\u\<close> with four hexadecimal digits giving a UTF-16 code
  unit (two of them a surrogate pair), stored in UTF-8; a control character is refused.  A
  number is the longest run of number characters, which must follow the JSON number
  grammar; its value is the platform's.  A property is defined on the object under
  construction: a repeated key keeps its place and takes the new value, and an array index
  key is enumerated before every other key, in ascending order.  The depth of the
  recursion is bounded by fuel, and \<^verbatim>\<open>JSON_parse\<close> gives it twice the length of the text, plus
  one; a text that the parser cannot read is a \<^verbatim>\<open>SyntaxError\<close>.
\<close>

definition is_ws :: "char \<Rightarrow> bool" where
  "is_ws c = (c = CHR '' '' \<or> c = CHR 0x09 \<or> c = CHR 0x0A \<or> c = CHR 0x0D)"

definition skip_ws :: "string \<Rightarrow> string" where
  "skip_ws s = dropWhile is_ws s"

definition hex_val :: "char \<Rightarrow> nat option" where
  "hex_val c =
     map_of (zip ''0123456789abcdefABCDEF''
       [0, 1, 2, 3, 4, 5, 6, 7, 8, 9, 10, 11, 12, 13, 14, 15, 10, 11, 12, 13, 14, 15]) c"

definition hex4 :: "string \<Rightarrow> nat option" where
  "hex4 s =
     (case map hex_val (take 4 s) of
        [Some a, Some b, Some c, Some d] \<Rightarrow> Some (((a * 16 + b) * 16 + c) * 16 + d)
      | _ \<Rightarrow> None)"

definition utf8 :: "nat \<Rightarrow> string" where
  "utf8 cp =
     (if cp < 128 then [char_of cp]
      else if cp < 2048 then [char_of (192 + cp div 64), char_of (128 + cp mod 64)]
      else if cp < 65536 then
        [char_of (224 + cp div 4096), char_of (128 + cp div 64 mod 64), char_of (128 + cp mod 64)]
      else
        [char_of (240 + cp div 262144), char_of (128 + cp div 4096 mod 64),
         char_of (128 + cp div 64 mod 64), char_of (128 + cp mod 64)])"

definition unescape :: "char \<Rightarrow> char option" where
  "unescape e =
     map_of [(CHR 0x22, CHR 0x22), (CHR 0x5C, CHR 0x5C), (CHR ''/'', CHR ''/''),
             (CHR ''b'', CHR 0x08), (CHR ''f'', CHR 0x0C), (CHR ''n'', CHR 0x0A),
             (CHR ''r'', CHR 0x0D), (CHR ''t'', CHR 0x09)] e"

definition low_surrogate :: "string \<Rightarrow> nat option" where
  "low_surrogate s =
     (case s of
        b # u # h \<Rightarrow>
          if b = CHR 0x5C \<and> u = CHR ''u'' then
            (case hex4 h of
               Some lo \<Rightarrow> if 56320 \<le> lo \<and> lo < 57344 then Some lo else None
             | None \<Rightarrow> None)
          else None
      | _ \<Rightarrow> None)"

definition prepend :: "string \<Rightarrow> (string \<times> string) option \<Rightarrow> (string \<times> string) option" where
  "prepend p res = map_option (\<lambda>(s, t). (p @ s, t)) res"

function parse_chars :: "string \<Rightarrow> (string \<times> string) option" where
  "parse_chars [] = None"
| "parse_chars (c # r) =
     (if c = CHR 0x22 then Some ([], r)
      else if c = CHR 0x5C then
        (case r of
           [] \<Rightarrow> None
         | e # r1 \<Rightarrow>
             if e = CHR ''u'' then
               (case hex4 r1 of
                  None \<Rightarrow> None
                | Some u \<Rightarrow>
                    (case (if 55296 \<le> u \<and> u < 56320 then low_surrogate (drop 4 r1) else None) of
                       Some lo \<Rightarrow>
                         prepend (utf8 (65536 + (u - 55296) * 1024 + (lo - 56320)))
                           (parse_chars (drop 10 r1))
                     | None \<Rightarrow> prepend (utf8 u) (parse_chars (drop 4 r1))))
             else
               (case unescape e of
                  None \<Rightarrow> None
                | Some ch \<Rightarrow> prepend [ch] (parse_chars r1)))
      else if (of_char c :: nat) < 32 then None
      else prepend [c] (parse_chars r))"
  by pat_completeness auto
termination
  by (relation "measure length") auto

declare parse_chars.simps [simp del]

definition number_char :: "char \<Rightarrow> bool" where
  "number_char c = (c \<in> set ''0123456789+-.eE'')"

definition is_digit :: "char \<Rightarrow> bool" where
  "is_digit c = (c \<in> set ''0123456789'')"

text \<open>The grammar of a JSON number: sign, integer part, fraction, exponent.\<close>

definition json_number :: "string \<Rightarrow> bool" where
  "json_number s =
     (let s1 = (if s \<noteq> [] \<and> hd s = CHR ''-'' then tl s else s);
          ip = takeWhile is_digit s1;
          s2 = dropWhile is_digit s1;
          fr = (if s2 \<noteq> [] \<and> hd s2 = CHR ''.'' then takeWhile is_digit (tl s2) else []);
          s3 = (if s2 \<noteq> [] \<and> hd s2 = CHR ''.'' then dropWhile is_digit (tl s2) else s2);
          s4 = (if s3 \<noteq> [] \<and> (hd s3 = CHR ''e'' \<or> hd s3 = CHR ''E'') then tl s3 else []);
          s5 = (if s4 \<noteq> [] \<and> (hd s4 = CHR ''+'' \<or> hd s4 = CHR ''-'') then tl s4 else s4)
      in ip \<noteq> [] \<and> (hd ip = CHR ''0'' \<longrightarrow> length ip = 1) \<and>
         (s2 \<noteq> [] \<and> hd s2 = CHR ''.'' \<longrightarrow> fr \<noteq> []) \<and>
         (s3 = [] \<or> ((hd s3 = CHR ''e'' \<or> hd s3 = CHR ''E'') \<and> s5 \<noteq> [] \<and> list_all is_digit s5)))"

definition parse_number :: "platform \<Rightarrow> string \<Rightarrow> (jsval \<times> string) option" where
  "parse_number P s =
     (if json_number (takeWhile number_char s)
      then Some (Num (string_to_number P (takeWhile number_char s)), dropWhile number_char s)
      else None)"

definition digits_value :: "string \<Rightarrow> nat" where
  "digits_value s = foldl (\<lambda>a c. 10 * a + (of_char c - 48)) 0 s"

definition is_index :: "string \<Rightarrow> bool" where
  "is_index k =
     (k \<noteq> [] \<and> list_all is_digit k \<and> (hd k = CHR ''0'' \<longrightarrow> length k = 1) \<and>
      length k \<le> 10 \<and> digits_value k \<le> 4294967294)"

fun insert_index :: "string \<Rightarrow> jsval \<Rightarrow> (string \<times> jsval) list \<Rightarrow> (string \<times> jsval) list" where
  "insert_index k v [] = [(k, v)]"
| "insert_index k v ((k', v') # fs) =
     (if is_index k' \<and> digits_value k' < digits_value k then (k', v') # insert_index k v fs
      else (k, v) # (k', v') # fs)"

definition obj_put :: "(string \<times> jsval) list \<Rightarrow> string \<Rightarrow> jsval \<Rightarrow> (string \<times> jsval) list" where
  "obj_put fs k v =
     (if map_of fs k \<noteq> None then map (\<lambda>(k', v'). if k' = k then (k', v) else (k', v')) fs
      else if is_index k then insert_index k v fs
      else fs @ [(k, v)])"

fun parse_value :: "platform \<Rightarrow> nat \<Rightarrow> string \<Rightarrow> (jsval \<times> string) option"
  and parse_elems :: "platform \<Rightarrow> nat \<Rightarrow> string \<Rightarrow> (jsval list \<times> string) option"
  and parse_members ::
    "platform \<Rightarrow> nat \<Rightarrow> (string \<times> jsval) list \<Rightarrow> string \<Rightarrow> ((string \<times> jsval) list \<times> string) option"
  where
  "parse_value P 0 s = None"
| "parse_value P (Suc n) s =
     (case skip_ws s of
        [] \<Rightarrow> None
      | c # r \<Rightarrow>
          if c = CHR ''['' then
            (case skip_ws r of
               [] \<Rightarrow> None
             | c' # r' \<Rightarrow>
                 if c' = CHR '']'' then Some (Arr [], r')
                 else map_option (\<lambda>(xs, t). (Arr xs, t)) (parse_elems P n r))
          else if c = CHR ''{'' then
            (case skip_ws r of
               [] \<Rightarrow> None
             | c' # r' \<Rightarrow>
                 if c' = CHR ''}'' then Some (Obj [], r')
                 else map_option (\<lambda>(fs, t). (Obj fs, t)) (parse_members P n [] r))
          else if c = CHR 0x22 then map_option (\<lambda>(x, t). (Str x, t)) (parse_chars r)
          else if prefix ''null'' (c # r) then Some (Null, drop 4 (c # r))
          else if prefix ''true'' (c # r) then Some (Bool True, drop 4 (c # r))
          else if prefix ''false'' (c # r) then Some (Bool False, drop 5 (c # r))
          else parse_number P (c # r))"
| "parse_elems P 0 s = None"
| "parse_elems P (Suc n) s =
     (case parse_value P n s of
        None \<Rightarrow> None
      | Some (v, r) \<Rightarrow>
          (case skip_ws r of
             [] \<Rightarrow> None
           | c # r' \<Rightarrow>
               if c = CHR '','' then map_option (\<lambda>(vs, t). (v # vs, t)) (parse_elems P n r')
               else if c = CHR '']'' then Some ([v], r')
               else None))"
| "parse_members P 0 acc s = None"
| "parse_members P (Suc n) acc s =
     (case skip_ws s of
        [] \<Rightarrow> None
      | q # r \<Rightarrow>
          if q \<noteq> CHR 0x22 then None
          else
            (case parse_chars r of
               None \<Rightarrow> None
             | Some (k, r1) \<Rightarrow>
                 (case skip_ws r1 of
                    [] \<Rightarrow> None
                  | c # r2 \<Rightarrow>
                      if c \<noteq> CHR '':'' then None
                      else
                        (case parse_value P n r2 of
                           None \<Rightarrow> None
                         | Some (v, r3) \<Rightarrow>
                             (case skip_ws r3 of
                                [] \<Rightarrow> None
                              | c' # r4 \<Rightarrow>
                                  if c' = CHR '','' then parse_members P n (obj_put acc k v) r4
                                  else if c' = CHR ''}'' then Some (obj_put acc k v, r4)
                                  else None)))))"

definition JSON_parse :: "platform \<Rightarrow> string \<Rightarrow> error + jsval" where
  "JSON_parse P s =
     (case parse_value P (Suc (2 * length s)) s of
        None \<Rightarrow> Inl SyntaxError
      | Some (v, r) \<Rightarrow> if skip_ws r = [] then Inr v else Inl SyntaxError)"

text \<open>
  \<^verbatim>\<open>localStorage\<close>: the stored items, and whether the browser refuses to read or to
  write (storage disabled, quota exceeded): a refused access throws.
\<close>

record storage =
  items :: "string \<rightharpoonup> string"
  denies_read :: bool
  denies_write :: bool

definition CACHE_KEY :: string where
  "CACHE_KEY = ''tolkien_dashboard_cache_v1''"

text \<open>
  \<^verbatim>\<open>const saveCache = (d) => { try{ localStorage.setItem(CACHE_KEY, JSON.stringify(d)); }catch{} };\<close>
  \<^verbatim>\<open>setItem\<close> stores the string conversion of its argument.
\<close>

definition saveCache :: "platform \<Rightarrow> jsval \<Rightarrow> storage \<Rightarrow> storage" where
  "saveCache P d st =
     (if denies_write st then st
      else st\<lparr>items := (items st)(CACHE_KEY \<mapsto>
             (case JSON_stringify P d of None \<Rightarrow> ''undefined'' | Some s \<Rightarrow> s))\<rparr>)"

text \<open>
  \<^verbatim>\<open>const loadCache = () => { try{ const s = localStorage.getItem(CACHE_KEY);
     return s? JSON.parse(s): null; }catch{ return null; } };\<close>
\<close>

definition loadCache :: "platform \<Rightarrow> storage \<Rightarrow> jsval" where
  "loadCache P st =
     (if denies_read st then Null
      else case items st CACHE_KEY of
        None \<Rightarrow> Null
      | Some s \<Rightarrow>
          if s = [] then Null
          else (case JSON_parse P s of Inl e \<Rightarrow> Null | Inr v \<Rightarrow> v))"

subsection \<open>Fetching\<close>

text \<open>
  The browser's state as the script sees it: the page, the storage and the errors
  written to the console.  What the network answers is an input: the request is
  rejected, or resolves to a response with its \<^verbatim>\<open>ok\<close> flag, its status and the result of
  \<^verbatim>\<open>r.json()\<close>.
\<close>

record browser =
  page :: dom
  local_storage :: storage
  console :: "error list"

datatype response = Rejected error | Resolved bool nat "error + jsval"

definition log_error :: "error \<Rightarrow> browser \<Rightarrow> browser" where
  "log_error e b = b\<lparr>console := console b @ [e]\<rparr>"

text \<open>
  \<^verbatim>\<open>async function fetchDashboard(){
    try{
      if (!API_BASE) return;
      const r = await fetch(`${API_BASE}/dashboard`, {cache:'no-store'});
      if (!r.ok) throw new Error(`HTTP ${r.status}`);
      const data = await r.json();
      if (isUsable(data)) { saveCache(data); renderDashboard(data); }
    }catch(err){ console.error('Fetch dashboard failed:', err); }
  }\<close>
\<close>

definition fetchDashboard :: "platform \<Rightarrow> string \<Rightarrow> response \<Rightarrow> browser \<Rightarrow> browser" where
  "fetchDashboard P base res b =
     (if base = [] then b
      else case res of
        Rejected e \<Rightarrow> log_error e b
      | Resolved ok status body \<Rightarrow>
          if \<not> ok then log_error (HttpError status) b
          else case body of
            Inl e \<Rightarrow> log_error e b
          | Inr data \<Rightarrow>
              (case isUsable P data of
                 Inl e \<Rightarrow> log_error e b
               | Inr usable \<Rightarrow>
                   if usable then
                     (let b1 = b\<lparr>local_storage := saveCache P data (local_storage b)\<rparr>
                      in case renderDashboard P data (page b1) of
                           (D, None) \<Rightarrow> b1\<lparr>page := D\<rparr>
                         | (D, Some e) \<Rightarrow> log_error e (b1\<lparr>page := D\<rparr>))
                   else b))"

text \<open>
  The timer calls \<^verbatim>\<open>fetchDashboard\<close> again and again: the responses are handled in the
  order in which they resolve.
\<close>

definition poll :: "platform \<Rightarrow> string \<Rightarrow> response list \<Rightarrow> browser \<Rightarrow> browser" where
  "poll P base rs b = foldl (\<lambda>b r. fetchDashboard P base r b) b rs"

text \<open>
  The script as a whole:
  \<^verbatim>\<open>const initial = loadCache();
  if (initial) renderDashboard(initial);
  fetchDashboard();
  setInterval(fetchDashboard, 5000);\<close>
  An exception outside \<^verbatim>\<open>fetchDashboard\<close> is not caught: it reaches the console and the
  script stops there, before any fetch.
\<close>

definition script :: "platform \<Rightarrow> string \<Rightarrow> jsval \<Rightarrow> response list \<Rightarrow> browser \<Rightarrow> browser" where
  "script P hostname override rs b =
     (case API_BASE hostname override of
        Inl e \<Rightarrow> log_error e b
      | Inr base \<Rightarrow>
          (let initial = loadCache P (local_storage b) in
           if truthy initial then
             (case renderDashboard P initial (page b) of
                (D, None) \<Rightarrow> poll P base rs (b\<lparr>page := D\<rparr>)
              | (D, Some e) \<Rightarrow> log_error e (b\<lparr>page := D\<rparr>))
           else poll P base rs b))"

subsection \<open>Values that JSON can carry\<close>

text \<open>
  A value is JSON-serializable when no \<^verbatim>\<open>undefined\<close> occurs in it, its Numbers are finite
  and print as JSON numbers that the platform reads back as the same Number, and the keys
  of its objects are distinct and in the order in which an object enumerates them: array
  index keys first, ascending.
\<close>

definition num_ok :: "platform \<Rightarrow> jsnum \<Rightarrow> bool" where
  "num_ok P x =
     (x \<noteq> NaN \<and> x \<noteq> PosInf \<and> x \<noteq> NegInf \<and>
      json_number (numToString P x) \<and> list_all number_char (numToString P x) \<and>
      string_to_number P (numToString P x) = x)"

definition canonical_keys :: "string list \<Rightarrow> bool" where
  "canonical_keys ks =
     (distinct ks \<and> sorted_wrt (<) (map digits_value (takeWhile is_index ks)) \<and>
      list_all (\<lambda>k. \<not> is_index k) (dropWhile is_index ks))"

fun json_value :: "platform \<Rightarrow> jsval \<Rightarrow> bool"
  and json_values :: "platform \<Rightarrow> jsval list \<Rightarrow> bool"
  and json_fields :: "platform \<Rightarrow> (string \<times> jsval) list \<Rightarrow> bool" where
  "json_value P Undefined = False"
| "json_value P Null = True"
| "json_value P (Bool b) = True"
| "json_value P (Num x) = num_ok P x"
| "json_value P (Str s) = True"
| "json_value P (Arr xs) = json_values P xs"
| "json_value P (Obj fs) = (canonical_keys (map fst fs) \<and> json_fields P fs)"
| "json_values P [] = True"
| "json_values P (x # xs) = (json_value P x \<and> json_values P xs)"
| "json_fields P [] = True"
| "json_fields P ((k, v) # fs) = (json_value P v \<and> json_fields P fs)"

definition closes :: "string \<Rightarrow> bool" where
  "closes rest = (rest = [] \<or> hd rest = CHR '','' \<or> hd rest = CHR '']'' \<or> hd rest = CHR ''}'')"

text \<open>The text of a value inside a JSON text, and what it is to read it back.\<close>

definition json_text :: "platform \<Rightarrow> jsval \<Rightarrow> string" where
  "json_text P v = (case JSON_stringify P v of None \<Rightarrow> ''null'' | Some s \<Rightarrow> s)"

definition roundtrips :: "platform \<Rightarrow> jsval \<Rightarrow> bool" where
  "roundtrips P v =
     (\<forall>n rest. closes rest \<longrightarrow> 2 * length (json_text P v) < n \<longrightarrow>
        parse_value P n (json_text P v @ rest) = Some (v, rest))"

subsection \<open>Locales\<close>

text \<open>
  \<^verbatim>\<open>toLocaleString(undefined, {maximumFractionDigits: k})\<close> formats in the default locale of
  the runtime, which the script does not choose.  The engines format the shortest decimal of
  the Number, the one that \<^verbatim>\<open>Number::toString\<close> prints, and not its exact binary value: the
  double nearest to 0.35 lies below 0.35 and has the shortest decimal 0.35, which one
  fraction digit renders as 0.4.  The decimal is rounded to \<open>k\<close> fraction digits, ties away
  from zero; the trailing zeros of the fraction are dropped; the integer digits are grouped
  in threes.  The locale gives the group separator and the decimal separator: a comma and
  a point in \<^verbatim>\<open>en-US\<close>, a point and a comma in \<^verbatim>\<open>de-DE\<close>.
\<close>

fun group3 :: "string \<Rightarrow> string \<Rightarrow> string" where
  "group3 sep ds =
     (if length ds \<le> 3 then ds
      else group3 sep (take (length ds - 3) ds) @ sep @ drop (length ds - 3) ds)"

declare group3.simps [simp del]

text \<open>The value \<open>s * 10 ^ (n - k)\<close> of the \<open>k\<close> digits \<open>ds\<close> of \<open>s\<close> with the exponent \<open>n\<close>.\<close>

definition decimal_value :: "string \<Rightarrow> int \<Rightarrow> real" where
  "decimal_value ds n =
     (if int (length ds) \<le> n then real (digits_value ds) * 10 ^ nat (n - int (length ds))
      else real (digits_value ds) / 10 ^ nat (int (length ds) - n))"

definition shortest_value :: "(real \<Rightarrow> string \<times> int) \<Rightarrow> real \<Rightarrow> real" where
  "shortest_value sd r = (case shortest_decimal sd r of (ds, n) \<Rightarrow> decimal_value ds n)"

definition locale_number ::
  "string \<Rightarrow> string \<Rightarrow> (real \<Rightarrow> string \<times> int) \<Rightarrow> jsnum \<Rightarrow> nat \<Rightarrow> string" where
  "locale_number gsep dsep sd x k =
     (case x of
        NaN \<Rightarrow> ''NaN''
      | PosInf \<Rightarrow> [CHR 0xE2, CHR 0x88, CHR 0x9E]
      | NegInf \<Rightarrow> [CHR ''-'', CHR 0xE2, CHR 0x88, CHR 0x9E]
      | Fin r \<Rightarrow>
          (let n = nat \<lfloor>shortest_value sd \<bar>r\<bar> * 10 ^ k + 1 / 2\<rfloor>;
               fr = digits_of (n mod 10 ^ k);
               fp = rev (dropWhile (\<lambda>c. c = CHR ''0'')
                      (rev (replicate (k - length fr) (CHR ''0'') @ fr)))
           in (if r < 0 then ''-'' else []) @ group3 gsep (digits_of (n div 10 ^ k)) @
              (if fp = [] then [] else dsep @ fp)))"

definition en_US_number :: "(real \<Rightarrow> string \<times> int) \<Rightarrow> jsnum \<Rightarrow> nat \<Rightarrow> string" where
  "en_US_number = locale_number '','' ''.''"

definition de_DE_number :: "(real \<Rightarrow> string \<times> int) \<Rightarrow> jsnum \<Rightarrow> nat \<Rightarrow> string" where
  "de_DE_number = locale_number ''.'' '',''"

subsection \<open>Sample platforms\<close>

text \<open>
  The value of a plain decimal literal (an optional minus sign, digits, an optional
  fraction), not rounded; \<^verbatim>\<open>NaN\<close> for any other text.
\<close>

definition plain_decimal :: "string \<Rightarrow> jsnum" where
  "plain_decimal s =
     (let s1 = (if s \<noteq> [] \<and> hd s = CHR ''-'' then tl s else s);
          ip = takeWhile is_digit s1;
          s2 = dropWhile is_digit s1;
          fr = (if s2 \<noteq> [] \<and> hd s2 = CHR ''.'' then tl s2 else [])
      in if ip \<noteq> [] \<and> list_all is_digit fr \<and> (s2 = [] \<or> (hd s2 = CHR ''.'' \<and> fr \<noteq> []))
         then Fin ((if s \<noteq> [] \<and> hd s = CHR ''-'' then - 1 else 1) *
                   (real (digits_value ip) + real (digits_value fr) / 10 ^ length fr))
         else NaN)"

text \<open>
  Platforms to run the model on concrete inputs: plain decimals, the shortest digits of the
  double nearest to 0.35, and the numbers of \<^verbatim>\<open>en-US\<close> and of \<^verbatim>\<open>de-DE\<close>; the components
  that no evaluation below reaches are constant.
\<close>

definition sample_digits :: "real \<Rightarrow> string \<times> int" where
  "sample_digits r = (if r = 3152519739159347 / 2 ^ 53 then (''35'', 0) else ([], 0))"

definition en_US :: platform where
  "en_US =
     \<lparr>string_to_number = plain_decimal,
      shortest_digits = sample_digits,
      to_locale_string = en_US_number sample_digits,
      date_to_locale_string = (\<lambda>v. []),
      upper_unicode = (\<lambda>s. s)\<rparr>"

definition de_DE :: platform where
  "de_DE =
     \<lparr>string_to_number = plain_decimal,
      shortest_digits = sample_digits,
      to_locale_string = de_DE_number sample_digits,
      date_to_locale_string = (\<lambda>v. []),
      upper_unicode = (\<lambda>s. s)\<rparr>"

section \<open>Properties\<close>

subsection \<open>Evaluation on numerals\<close>

lemma replicate_num: "replicate (numeral k) x = x # replicate (pred_numeral k) x"
  by (simp add: numeral_eq_Suc)

lemmas digits_of_eval =
  digits_of.simps [of 0] digits_of.simps [of 1] digits_of.simps [of "Suc 0"]
  digits_of.simps [of "numeral k"] for k

lemmas strip10_eval =
  strip10.simps [of 0] strip10.simps [of 1] strip10.simps [of "Suc 0"]
  strip10.simps [of "numeral k"] for k

lemmas num_eval =
  pos_to_string_def shortest_decimal_def frac_shift.simps strip10_eval digits_of_eval
  fmt_decimal_def digit_char_def
  replicate_num

lemmas fmt_eval =
  and_then_def num_or_zero_def num_le_def lit_0_01_def lit_0_000001_def toFixed_def
  fixed_digits_def toExponential_def exp_round_def exp_fmt_def lead_exp.simps Let_def

subsection \<open>Trailing slashes\<close>

lemma all_same_replicate: "\<forall>x\<in>set xs. x = c \<Longrightarrow> xs = replicate (length xs) c"
  by (induction xs) auto

lemma strip_trailing_slashes_shape:
  "\<exists>n. s = strip_trailing_slashes s @ replicate n (CHR ''/'')"
proof -
  let ?t = "takeWhile (\<lambda>c. c = CHR ''/'') (rev s)"
  let ?d = "dropWhile (\<lambda>c. c = CHR ''/'') (rev s)"
  have "rev (?t @ ?d) = rev (rev s)"
    by (simp only: takeWhile_dropWhile_id)
  then have "rev ?d @ rev ?t = s"
    by (simp only: rev_append rev_rev_ident)
  then have a: "s = strip_trailing_slashes s @ rev ?t"
    by (simp only: strip_trailing_slashes_def)
  have "\<forall>x\<in>set (rev ?t). x = CHR ''/''"
    by (auto dest: set_takeWhileD)
  then have "rev ?t = replicate (length (rev ?t)) (CHR ''/'')"
    by (rule all_same_replicate)
  with a show ?thesis
    by metis
qed

lemma strip_trailing_slashes_last:
  "strip_trailing_slashes s = [] \<or> last (strip_trailing_slashes s) \<noteq> CHR ''/''"
proof (cases "dropWhile (\<lambda>c. c = CHR ''/'') (rev s)")
  case Nil
  then show ?thesis
    by (simp add: strip_trailing_slashes_def)
next
  case (Cons a as)
  then have "a \<noteq> CHR ''/''"
    using hd_dropWhile [of "\<lambda>c. c = CHR ''/''" "rev s"] by auto
  with Cons show ?thesis
    by (simp add: strip_trailing_slashes_def)
qed

subsection \<open>Statements and their frames\<close>

lemma and_then_Inr: "and_then m f = Inr y \<Longrightarrow> \<exists>x. m = Inr x \<and> f x = Inr y"
  by (cases m) (simp_all add: and_then_def)

lemma preserves_set_text: "k \<noteq> i \<Longrightarrow> preserves k (set_text i v)"
  by (auto simp: preserves_def set_text_def dest!: and_then_Inr split: option.splits)

lemma preserves_call_setWidth: "k \<noteq> i \<Longrightarrow> preserves k (call_setWidth P i arg)"
  by (auto simp: preserves_def call_setWidth_def dest!: and_then_Inr)

lemma preserves_set_list: "k \<noteq> ''txList'' \<Longrightarrow> preserves k (set_list P d)"
  by (auto simp: preserves_def set_list_def dest!: and_then_Inr
      split: option.splits jsval.splits if_splits)

lemma preserves_set_contract: "k \<noteq> ''contractAddress'' \<Longrightarrow> preserves k (set_contract P d)"
  by (auto simp: preserves_def set_contract_def dest!: and_then_Inr split: option.splits if_splits)

lemma preserves_set_contract_falsy:
  "\<not> truthy (fld d ''token_mint'') \<Longrightarrow> preserves k (set_contract P d)"
  by (auto simp: preserves_def set_contract_def getField_def dest!: and_then_Inr
      split: option.splits if_splits)

lemma run_preserves: "list_all (preserves k) ss \<Longrightarrow> fst (run ss D) k = D k"
proof (induction ss arbitrary: D)
  case Nil
  then show ?case by simp
next
  case (Cons s ss)
  then show ?case
    by (cases "s D") (auto simp: preserves_def)
qed

lemma run_completes: "list_all completes ss \<Longrightarrow> snd (run ss D) = None"
proof (induction ss arbitrary: D)
  case Nil
  then show ?case by simp
next
  case (Cons s ss)
  then obtain D' where "s D = Inr D'"
    by (auto simp: completes_def)
  with Cons show ?case by simp
qed

lemma run_append:
  "run (ss @ ts) D = (case run ss D of (D', Some e) \<Rightarrow> (D', Some e) | (D', None) \<Rightarrow> run ts D')"
  by (induction ss arbitrary: D) (auto split: sum.splits)

subsection \<open>Scalars convert without exception\<close>

lemma scalar_toStr: "scalar v \<Longrightarrow> toStr P v = Inr (str_of P v)"
  by (cases v) (simp_all add: scalar_def str_of_def)

lemma scalar_toNumber: "scalar v \<Longrightarrow> \<exists>n. toNumber P v = Inr n"
  by (cases v) (simp_all add: scalar_def)


lemma scalar_falsy_default: "scalar v \<Longrightarrow> scalar (if truthy v then v else Num (Fin 0))"
  by (simp add: scalar_def)

lemma scalar_fmtPrice: "scalar v \<Longrightarrow> \<exists>s. fmtPrice P v = Inr s"
  using scalar_toNumber [of v P] by (auto simp: fmtPrice_def and_then_def Let_def)

lemma scalar_fmtUSD: "scalar v \<Longrightarrow> \<exists>s. fmtUSD P v = Inr s"
  using scalar_toNumber [of v P] by (auto simp: fmtUSD_def and_then_def)

lemma scalar_fmtPct: "scalar v \<Longrightarrow> \<exists>s. fmtPct P v = Inr s"
  using scalar_toNumber [of v P] scalar_toNumber [OF scalar_falsy_default, of v P]
  by (auto simp: fmtPct_def and_then_def)

lemma completes_set_text: "\<exists>s. v = Inr s \<Longrightarrow> completes (set_text i v)"
  by (auto simp: completes_def set_text_def and_then_def split: option.splits)

lemma completes_call_setWidth:
  "d \<noteq> Null \<Longrightarrow> d \<noteq> Undefined \<Longrightarrow> scalar (fld d f) \<Longrightarrow>
   completes (call_setWidth P i (getField d f))"
  using scalar_toNumber [of "fld d f" P]
  by (auto simp: completes_def call_setWidth_def setWidth_def getField_def and_then_def Let_def
      split: option.splits)

lemma completes_set_contract:
  "d \<noteq> Null \<Longrightarrow> d \<noteq> Undefined \<Longrightarrow> scalar (fld d ''token_mint'') \<Longrightarrow>
   completes (set_contract P d)"
  using scalar_toStr [of "fld d ''token_mint''" P]
  by (auto simp: completes_def set_contract_def getField_def and_then_def split: option.splits)

lemma render_stmts_snoc: "render_stmts P d = render_head P d @ [set_list P d]"
  by (simp add: render_head_def render_stmts_def)

lemma render_head_completes:
  assumes "well_typed d"
  shows "list_all completes (render_head P d)"
proof -
  from assms have nn: "d \<noteq> Null" "d \<noteq> Undefined"
    and sc: "scalar (fld d ''price_usd'')" "scalar (fld d ''volume_change_pct'')"
      "scalar (fld d ''buybacks_usd'')" "scalar (fld d ''burned_usd'')"
      "scalar (fld d ''market_cap_usd'')" "scalar (fld d ''next_goal_usd'')"
      "scalar (fld d ''next_goal_progress_pct'')" "scalar (fld d ''supply_burned_pct'')"
      "scalar (fld d ''token_mint'')"
    by (simp_all add: well_typed_def snapshot_fields_def)
  have g: "getField d f = Inr (fld d f)" for f
    using nn by (simp add: getField_def)
  have 1: "completes (set_text ''statPrice'' (and_then (getField d ''price_usd'') (fmtPrice P)))"
    using scalar_fmtPrice [OF sc(1), of P] by (intro completes_set_text) (simp add: g and_then_def)
  have 2: "completes (set_text ''statVolume''
        (and_then (getField d ''volume_change_pct'') (fmtPct P)))"
    using scalar_fmtPct [OF sc(2), of P] by (intro completes_set_text) (simp add: g and_then_def)
  have 3: "completes (set_text ''statBuybacks''
        (and_then (getField d ''buybacks_usd'') (fmtUSD P)))"
    using scalar_fmtUSD [OF sc(3), of P] by (intro completes_set_text) (simp add: g and_then_def)
  have 4: "completes (set_text ''statBurned'' (and_then (getField d ''burned_usd'') (fmtUSD P)))"
    using scalar_fmtUSD [OF sc(4), of P] by (intro completes_set_text) (simp add: g and_then_def)
  have 5: "completes (set_text ''goalLabel''
        (and_then (getField d ''market_cap_usd'') (\<lambda>m. and_then (fmtUSD P m) (\<lambda>a.
         and_then (getField d ''next_goal_usd'') (\<lambda>g. and_then (fmtUSD P g) (\<lambda>b.
           Inr (''('' @ a @ '' / '' @ b @ '')'')))))))"
    using scalar_fmtUSD [OF sc(5), of P] scalar_fmtUSD [OF sc(6), of P]
    by (intro completes_set_text) (auto simp: g and_then_def)
  have 6: "completes (set_text ''goalPctLabel''
        (and_then (getField d ''next_goal_progress_pct'') (\<lambda>v.
         and_then (toStr P v) (\<lambda>s. Inr (s @ ''%'')))))"
    using scalar_toStr [OF sc(7), of P] by (intro completes_set_text) (auto simp: g and_then_def)
  have 7: "completes (call_setWidth P ''goalFill'' (getField d ''next_goal_progress_pct''))"
    using nn sc(7) by (rule completes_call_setWidth)
  have 8: "completes (set_text ''burnPctLabel''
        (and_then (getField d ''supply_burned_pct'') (\<lambda>v.
         and_then (toStr P v) (\<lambda>s. Inr (s @ ''%'')))))"
    using scalar_toStr [OF sc(8), of P] by (intro completes_set_text) (auto simp: g and_then_def)
  have 9: "completes (call_setWidth P ''burnFill'' (getField d ''supply_burned_pct''))"
    using nn sc(8) by (rule completes_call_setWidth)
  have 10: "completes (set_contract P d)"
    using nn sc(9) by (rule completes_set_contract)
  show ?thesis
    using 1 2 3 4 5 6 7 8 9 10 by (simp add: render_head_def render_stmts_def)
qed

lemma render_head_preserves_list: "list_all (preserves ''txList'') (render_head P d)"
  by (simp add: render_head_def render_stmts_def preserves_set_text preserves_call_setWidth
      preserves_set_contract)

lemma set_list_empty:
  assumes "d \<noteq> Null" "d \<noteq> Undefined"
    and "fld d ''transactions'' = Arr [] \<or> \<not> truthy (fld d ''transactions'')"
    and "D ''txList'' = Some e"
  shows "set_list P d D = Inr (D(''txList'' \<mapsto> e\<lparr>innerHTML := no_transactions\<rparr>))"
  using assms by (auto simp: set_list_def getField_def and_then_def)

subsection \<open>Decimal digits\<close>

lemma digits_of_small: "n < 10 \<Longrightarrow> digits_of n = [digit_char n]"
  by (simp add: digits_of.simps)

lemma digits_of_step: "10 \<le> n \<Longrightarrow> digits_of n = digits_of (n div 10) @ [digit_char (n mod 10)]"
  by (subst digits_of.simps) simp

lemma digits_of_nonempty: "digits_of n \<noteq> []"
  by (cases "n < 10") (simp_all add: digits_of_small digits_of_step)

lemma digit_char_digit: "d < 10 \<Longrightarrow> digit_char d \<in> set ''0123456789''"
proof -
  assume "d < 10"
  then have "d \<in> {0, 1, 2, 3, 4, 5, 6, 7, 8, 9}" by auto
  then show ?thesis by (auto simp: digit_char_def)
qed

lemma digits_of_digits: "set (digits_of n) \<subseteq> set ''0123456789''"
proof (induction n rule: digits_of.induct)
  case (1 n)
  show ?case
  proof (cases "n < 10")
    case True
    then show ?thesis using digit_char_digit [of n] by (simp add: digits_of_small)
  next
    case False
    then have "set (digits_of (n div 10)) \<subseteq> set ''0123456789''" using 1 by simp
    moreover have "digit_char (n mod 10) \<in> set ''0123456789''" by (rule digit_char_digit) simp
    ultimately show ?thesis using False by (simp add: digits_of_step)
  qed
qed

lemma digits_of_length_le: "0 < f \<Longrightarrow> m < 10 ^ f \<Longrightarrow> length (digits_of m) \<le> f"
proof (induction f arbitrary: m)
  case 0
  then show ?case by simp
next
  case (Suc f)
  show ?case
  proof (cases "m < 10")
    case True
    then show ?thesis by (simp add: digits_of_small)
  next
    case False
    then have f: "0 < f" using Suc.prems by (cases f) auto
    have "m div 10 < 10 ^ f" using Suc.prems(2) by (simp add: less_mult_imp_div_less mult.commute)
    then have "length (digits_of (m div 10)) \<le> f" using Suc.IH f by simp
    with False show ?thesis by (simp add: digits_of_step)
  qed
qed

lemma zero_pad_length: "0 < f \<Longrightarrow> m < 10 ^ f \<Longrightarrow> length (zero_pad f (digits_of m)) = f"
  using digits_of_length_le [of f m] by (simp add: zero_pad_def)

lemma zero_pad_step:
  assumes "0 < f"
  shows "zero_pad (Suc f) (digits_of m) = zero_pad f (digits_of (m div 10)) @ [digit_char (m mod 10)]"
proof (cases "m < 10")
  case True
  have "zero_pad f (digits_of 0) = replicate f (CHR ''0'')"
    using assms by (cases f) (simp_all add: zero_pad_def digits_of_small digit_char_def replicate_append_same)
  with True show ?thesis by (simp add: zero_pad_def digits_of_small)
next
  case False
  then show ?thesis by (simp add: zero_pad_def digits_of_step)
qed

lemma digits_of_split:
  "0 < f \<Longrightarrow> 0 < n div 10 ^ f \<Longrightarrow>
   digits_of n = digits_of (n div 10 ^ f) @ zero_pad f (digits_of (n mod 10 ^ f))"
proof (induction f arbitrary: n)
  case 0
  then show ?case by simp
next
  case (Suc f)
  have n10: "10 \<le> n"
  proof (rule ccontr)
    assume "\<not> 10 \<le> n"
    then have "n < 10 ^ Suc f" by (simp add: less_le_trans [of n 10 "10 * 10 ^ f"])
    then show False using Suc.prems(2) by simp
  qed
  have d: "n div (10 * 10 ^ f) = (n div 10) div 10 ^ f"
    by (simp add: div_mult2_eq)
  have md: "(n mod (10 * 10 ^ f)) div 10 = (n div 10) mod 10 ^ f"
    by (simp add: mod_mult2_eq)
  have mm: "(n mod (10 * 10 ^ f)) mod 10 = n mod 10"
    by (simp add: mod_mult2_eq)
  show ?case
  proof (cases "f = 0")
    case True
    then show ?thesis using n10 by (simp add: digits_of_step zero_pad_def digits_of_small)
  next
    case False
    then have f: "0 < f" by simp
    have "digits_of (n div 10) = digits_of ((n div 10) div 10 ^ f) @ zero_pad f (digits_of ((n div 10) mod 10 ^ f))"
      using Suc.IH [of "n div 10"] f Suc.prems(2) d by simp
    then show ?thesis
      using n10 by (simp add: digits_of_step zero_pad_step [OF f] d md mm)
  qed
qed

lemma fixed_digits_eq:
  assumes "0 < f"
  shows "fixed_digits a f =
     digits_of (nat \<lfloor>a * 10 ^ f + 1 / 2\<rfloor> div 10 ^ f) @ ''.'' @
     zero_pad f (digits_of (nat \<lfloor>a * 10 ^ f + 1 / 2\<rfloor> mod 10 ^ f))"
proof -
  define n where "n = nat \<lfloor>a * 10 ^ f + 1 / 2\<rfloor>"
  have len: "length (zero_pad f (digits_of (n mod 10 ^ f))) = f"
    using assms by (simp add: zero_pad_length)
  show ?thesis
  proof (cases "0 < n div 10 ^ f")
    case True
    have sp: "digits_of n = digits_of (n div 10 ^ f) @ zero_pad f (digits_of (n mod 10 ^ f))"
      using assms True by (rule digits_of_split)
    have "f < length (digits_of n)"
      using len digits_of_nonempty [of "n div 10 ^ f"] by (simp add: sp)
    then have "fixed_digits a f = take (length (digits_of n) - f) (digits_of n) @ ''.'' @ drop (length (digits_of n) - f) (digits_of n)"
      using assms by (simp add: fixed_digits_def n_def Let_def)
    also have "length (digits_of n) - f = length (digits_of (n div 10 ^ f))"
      using len by (simp add: sp)
    also have "take (length (digits_of (n div 10 ^ f))) (digits_of n) = digits_of (n div 10 ^ f)"
      by (simp add: sp)
    also have "drop (length (digits_of (n div 10 ^ f))) (digits_of n) = zero_pad f (digits_of (n mod 10 ^ f))"
      by (simp add: sp)
    finally show ?thesis by (simp add: n_def)
  next
    case False
    then have small: "n < 10 ^ f" by (simp add: div_eq_0_iff)
    then have le: "length (digits_of n) \<le> f" using assms by (simp add: digits_of_length_le)
    have "fixed_digits a f = ''0'' @ ''.'' @ zero_pad f (digits_of n)"
      using assms le by (simp add: fixed_digits_def n_def [symmetric] Let_def zero_pad_def Suc_diff_le)
    then show ?thesis using small by (simp add: n_def [symmetric] digits_of_small digit_char_def)
  qed
qed

subsection \<open>Exponent notation\<close>

lemma lead_exp_spec:
  "0 < a \<Longrightarrow> a * 10 ^ j < 10 \<Longrightarrow>
   j \<le> lead_exp a j \<and> 1 \<le> a * 10 ^ lead_exp a j \<and> a * 10 ^ lead_exp a j < 10"
proof (induction a j rule: lead_exp.induct)
  case (1 a j)
  show ?case
  proof (cases "1 \<le> a * 10 ^ j")
    case True
    then show ?thesis using "1.prems" by (simp add: lead_exp.simps)
  next
    case False
    then have "a * 10 ^ Suc j < 10" by simp
    with False "1.prems" have "Suc j \<le> lead_exp a (Suc j) \<and> 1 \<le> a * 10 ^ lead_exp a (Suc j) \<and> a * 10 ^ lead_exp a (Suc j) < 10"
      by (intro "1.IH") auto
    moreover have "lead_exp a j = lead_exp a (Suc j)"
      using False "1.prems" by (subst lead_exp.simps) simp
    ultimately show ?thesis by simp
  qed
qed

lemma lead_exp_lower:
  assumes "0 < a" and "a * 10 ^ m < 1" and "a * 10 ^ j < 10"
  shows "m < lead_exp a j"
proof (rule ccontr)
  assume "\<not> m < lead_exp a j"
  then have le: "lead_exp a j \<le> m" by simp
  have "(10::real) ^ lead_exp a j \<le> 10 ^ m"
    using le by (simp add: power_increasing)
  then have "a * 10 ^ lead_exp a j \<le> a * 10 ^ m"
    using assms(1) by simp
  moreover have "1 \<le> a * 10 ^ lead_exp a j"
    using lead_exp_spec [OF assms(1,3)] by simp
  ultimately show False using assms(2) by simp
qed

lemma digits_of_three:
  assumes "100 \<le> n" and "n < 1000"
  shows "digits_of n = [digit_char (n div 100), digit_char (n div 10 mod 10), digit_char (n mod 10)]"
proof -
  have a: "digits_of n = digits_of (n div 10) @ [digit_char (n mod 10)]"
    using assms by (simp add: digits_of_step)
  have "10 \<le> n div 10" using assms by simp
  then have b: "digits_of (n div 10) = digits_of (n div 10 div 10) @ [digit_char (n div 10 mod 10)]"
    by (rule digits_of_step)
  have c: "n div 10 div 10 = n div 100" by (simp add: div_mult2_eq)
  have "n div 100 < 10" using assms by simp
  then have "digits_of (n div 100) = [digit_char (n div 100)]" by (rule digits_of_small)
  with a b c show ?thesis by simp
qed

lemma exp_round_small:
  assumes pos: "0 < a" and small: "a < 1"
  shows "\<exists>n e. exp_round a 2 = (n, e) \<and> 100 \<le> n \<and> n < 1000 \<and>
           (e = - int (lead_exp a 1) \<or> e = 1 - int (lead_exp a 1)) \<and>
           \<bar>real n - a * 10 ^ nat (2 - e)\<bar> \<le> 1 / 2"
proof -
  define j where "j = lead_exp a 1"
  define x where "x = a * 10 ^ j"
  define n0 where "n0 = nat \<lfloor>x * 100 + 1 / 2\<rfloor>"
  have a10: "a * 10 ^ 1 < 10"
    using small by simp
  have x1: "1 \<le> x" and x10: "x < 10"
    using lead_exp_spec [OF pos a10] by (simp_all add: j_def x_def)
  define z where "z = \<lfloor>x * 100 + 1 / 2\<rfloor>"
  have fl: "100 \<le> z" "z \<le> 1000"
    using x1 x10 by (simp_all add: z_def le_floor_iff floor_le_iff)
  have n0z: "n0 = nat z"
    by (simp add: n0_def z_def)
  have n0_range: "100 \<le> n0" "n0 \<le> 1000"
    using fl unfolding n0z by arith+
  have "real_of_int z \<le> x * 100 + 1 / 2" "x * 100 + 1 / 2 < real_of_int z + 1"
    unfolding z_def by linarith+
  moreover have "real n0 = real_of_int z"
    using fl unfolding n0z by simp
  ultimately have near: "\<bar>real n0 - x * 100\<bar> \<le> 1 / 2"
    by linarith
  have er: "exp_round a 2 = (if n0 = 1000 then (100, 1 - int j) else (n0, - int j))"
    using small by (simp add: exp_round_def Let_def j_def x_def n0_def)
  show ?thesis
  proof (cases "n0 = 1000")
    case True
    have eq1: "nat (2 - (1 - int j)) = Suc j"
      by simp
    have eq2: "a * 10 ^ Suc j = x * 10"
      by (simp add: x_def)
    have "\<bar>1000 - x * 100\<bar> \<le> 1 / 2"
      using near True by simp
    then have h: "\<bar>100 - x * 10\<bar> \<le> 1 / 2"
      by linarith
    have "\<bar>real 100 - a * 10 ^ nat (2 - (1 - int j))\<bar> \<le> 1 / 2"
      unfolding eq1 eq2 using h by simp
    with True er show ?thesis
      by (auto simp: j_def)
  next
    case False
    have eq1: "nat (2 - (- int j)) = Suc (Suc j)"
      by simp
    have eq2: "a * 10 ^ Suc (Suc j) = x * 100"
      by (simp add: x_def)
    have "\<bar>real n0 - a * 10 ^ nat (2 - (- int j))\<bar> \<le> 1 / 2"
      unfolding eq1 eq2 using near by simp
    with False er n0_range show ?thesis
      by (auto simp: j_def)
  qed
qed

lemma toExponential_small:
  assumes pos: "0 < p" and small: "p * 10 ^ 6 < 1"
  shows "\<exists>n e. exp_round p 2 = (n, e) \<and> 100 \<le> n \<and> n < 1000 \<and> e \<le> - 6 \<and>
           \<bar>real n - p * 10 ^ nat (2 - e)\<bar> \<le> 1 / 2 \<and>
           toExponential P (Fin p) 2 =
             [digit_char (n div 100), CHR ''.'', digit_char (n div 10 mod 10), digit_char (n mod 10)] @
             ''e-'' @ digits_of (nat (- e))"
proof -
  have p1: "p < 1"
  proof -
    have "p * 1 \<le> p * 10 ^ 6" using pos by (intro mult_left_mono) simp_all
    with small show ?thesis by simp
  qed
  obtain n e where er: "exp_round p 2 = (n, e)" and n: "100 \<le> n" "n < 1000"
    and e: "e = - int (lead_exp p 1) \<or> e = 1 - int (lead_exp p 1)"
    and near: "\<bar>real n - p * 10 ^ nat (2 - e)\<bar> \<le> 1 / 2"
    using exp_round_small [OF pos p1] by blast
  have "p * 10 ^ 1 < 10" using p1 by simp
  then have "6 < lead_exp p 1"
    using pos small by (intro lead_exp_lower) auto
  with e have e6: "e \<le> - 6" by auto
  then have eabs: "nat \<bar>e\<bar> = nat (- e)" by simp
  have "toExponential P (Fin p) 2 =
      [digit_char (n div 100), CHR ''.'', digit_char (n div 10 mod 10), digit_char (n mod 10)] @
      ''e-'' @ digits_of (nat (- e))"
    using pos e6 by (simp add: toExponential_def er exp_fmt_def digits_of_three [OF n] eabs)
  with er n e6 near show ?thesis by blast
qed

subsection \<open>The formatters on Numbers\<close>

lemma fmtPrice_fin:
  "fmtPrice P (Num (Fin p)) =
     Inr (if lit_0_01 \<le> p then ''$'' @ toFixed P (Fin p) 4
          else if lit_0_000001 \<le> p then ''$'' @ toFixed P (Fin p) 8
          else if 0 < p then ''$'' @ toExponential P (Fin p) 2
          else ''$0.00'')"
proof -
  have "0 < lit_0_000001" "lit_0_000001 < lit_0_01"
    by (simp_all add: lit_0_000001_def lit_0_01_def)
  then show ?thesis
    by (auto simp: fmtPrice_def and_then_def num_or_zero_def num_le_def Let_def)
qed

lemma toFixed_fin: "0 \<le> p \<Longrightarrow> p < 10 ^ 21 \<Longrightarrow> toFixed P (Fin p) f = fixed_digits p f"
  by (simp add: toFixed_def)

subsection \<open>Numbers in a locale\<close>

lemma group3_hd: "ds \<noteq> [] \<Longrightarrow> group3 sep ds \<noteq> [] \<and> hd (group3 sep ds) = hd ds"
proof (induction sep ds rule: group3.induct)
  case (1 sep ds)
  show ?case
  proof (cases "length ds \<le> 3")
    case True
    then show ?thesis using "1.prems" by (simp add: group3.simps)
  next
    case False
    then have ne: "take (length ds - 3) ds \<noteq> []" by auto
    then have "group3 sep (take (length ds - 3) ds) \<noteq> [] \<and>
        hd (group3 sep (take (length ds - 3) ds)) = hd (take (length ds - 3) ds)"
      using 1 False by simp
    moreover have "hd (take (length ds - 3) ds) = hd ds"
      using False by (cases ds) (auto simp: take_Cons')
    ultimately show ?thesis
      using False by (subst group3.simps, subst (2) group3.simps) auto
  qed
qed

lemma digit_char_zero: "d < 10 \<Longrightarrow> (digit_char d = CHR ''0'') = (d = 0)"
proof -
  assume "d < 10"
  then have "d \<in> {0, 1, 2, 3, 4, 5, 6, 7, 8, 9}" by auto
  then show ?thesis by (auto simp: digit_char_def)
qed

text \<open>With one fraction digit: the tenths \<open>n\<close>, the last digit shown unless it is 0.\<close>

lemma locale_number_tenths:
  "locale_number gsep dsep sd (Fin r) 1 =
     (if r < 0 then ''-'' else []) @
     group3 gsep (digits_of (nat \<lfloor>shortest_value sd \<bar>r\<bar> * 10 + 1 / 2\<rfloor> div 10)) @
     (if nat \<lfloor>shortest_value sd \<bar>r\<bar> * 10 + 1 / 2\<rfloor> mod 10 = 0 then []
      else dsep @ [digit_char (nat \<lfloor>shortest_value sd \<bar>r\<bar> * 10 + 1 / 2\<rfloor> mod 10)])"
proof -
  define n where "n = nat \<lfloor>shortest_value sd \<bar>r\<bar> * 10 + 1 / 2\<rfloor>"
  have d: "digits_of (n mod 10) = [digit_char (n mod 10)]"
    by (simp add: digits_of_small)
  have z: "(digit_char (n mod 10) = CHR ''0'') = (n mod 10 = 0)"
    by (simp add: digit_char_zero)
  have "locale_number gsep dsep sd (Fin r) 1 =
     (if r < 0 then ''-'' else []) @ group3 gsep (digits_of (n div 10)) @
     (if n mod 10 = 0 then [] else dsep @ [digit_char (n mod 10)])"
    unfolding locale_number_def Let_def by (simp add: n_def [symmetric] d z)
  then show ?thesis
    unfolding n_def .
qed

text \<open>A Number of at most 15 significant digits is its own shortest decimal.\<close>

lemma frac_shift_value:
  "frac_shift b r j = Some (m, i) \<Longrightarrow> 0 \<le> r \<Longrightarrow> real m = r * 10 ^ i"
proof (induction b r j rule: frac_shift.induct)
  case (1 b r j)
  show ?case
  proof (cases "of_int \<lfloor>r * 10 ^ j\<rfloor> = r * 10 ^ j")
    case True
    then have "frac_shift b r j = Some (nat \<lfloor>r * 10 ^ j\<rfloor>, j)"
      by (subst frac_shift.simps) simp
    with "1.prems"(1) have m: "m = nat \<lfloor>r * 10 ^ j\<rfloor>" and i: "i = j"
      by auto
    have "0 \<le> r * 10 ^ j"
      using "1.prems"(2) by simp
    then have "0 \<le> \<lfloor>r * 10 ^ j\<rfloor>"
      by simp
    then have "real (nat \<lfloor>r * 10 ^ j\<rfloor>) = of_int \<lfloor>r * 10 ^ j\<rfloor>"
      by simp
    with True show ?thesis
      by (simp add: m i)
  next
    case False
    then have "frac_shift b r j = (case b of 0 \<Rightarrow> None | Suc b' \<Rightarrow> frac_shift b' r (Suc j))"
      by (subst frac_shift.simps) simp
    with "1.prems"(1) obtain b' where b: "b = Suc b'" and f: "frac_shift b' r (Suc j) = Some (m, i)"
      by (cases b) simp_all
    from "1.IH" [OF False b f "1.prems"(2)] show ?thesis .
  qed
qed

lemma strip10_value: "strip10 m t = (s, u) \<Longrightarrow> s * 10 ^ u = m * 10 ^ t \<and> t \<le> u"
proof (induction m t rule: strip10.induct)
  case (1 m t)
  show ?case
  proof (cases "m \<noteq> 0 \<and> m mod 10 = 0")
    case True
    then have "strip10 m t = strip10 (m div 10) (Suc t)"
      by (subst strip10.simps) simp
    with "1.prems" have f: "strip10 (m div 10) (Suc t) = (s, u)"
      by simp
    from "1.IH" [OF True f] have "s * 10 ^ u = m div 10 * 10 ^ Suc t" and "Suc t \<le> u"
      by simp_all
    moreover have "m div 10 * 10 = m"
      using True by auto
    ultimately show ?thesis
      by (simp add: mult.assoc [symmetric])
  next
    case False
    then have "strip10 m t = (m, t)"
      by (subst strip10.simps) auto
    with "1.prems" show ?thesis
      by simp
  qed
qed

lemma digit_char_value: "d < 10 \<Longrightarrow> of_char (digit_char d) - 48 = d"
proof -
  assume "d < 10"
  then have "d \<in> {0, 1, 2, 3, 4, 5, 6, 7, 8, 9}" by auto
  then show ?thesis by (auto simp: digit_char_def)
qed

lemma digits_value_digits_of: "digits_value (digits_of n) = n"
proof (induction n rule: digits_of.induct)
  case (1 n)
  show ?case
  proof (cases "n < 10")
    case True
    then show ?thesis
      by (simp add: digits_of_small digits_value_def digit_char_value)
  next
    case False
    then have "digits_value (digits_of (n div 10)) = n div 10"
      using 1 by simp
    then show ?thesis
      using False by (simp add: digits_of_step digits_value_def digit_char_value)
  qed
qed

lemma shortest_value_exact:
  assumes "0 \<le> r" and "frac_shift 30 r 0 = Some (m, j)" and "strip10 m 0 = (s, t)"
    and "length (digits_of s) \<le> 15"
  shows "shortest_value sd r = r"
proof -
  have m: "real m = r * 10 ^ j"
    using frac_shift_value [OF assms(2,1)] .
  have s: "s * 10 ^ t = m"
    using strip10_value [OF assms(3)] by simp
  have v: "shortest_value sd r =
      decimal_value (digits_of s) (int (length (digits_of s)) + int t - int j)"
    by (simp add: shortest_value_def shortest_decimal_def assms Let_def)
  have r: "r = real s * 10 ^ t / 10 ^ j"
  proof -
    have "real s * 10 ^ t = real m"
      using s by (metis of_nat_mult of_nat_numeral of_nat_power)
    then show ?thesis
      by (simp add: m)
  qed
  show ?thesis
  proof (cases "j \<le> t")
    case True
    then have "10 ^ t = (10::real) ^ (t - j) * 10 ^ j"
      by (simp add: power_add [symmetric])
    then have e: "real s * 10 ^ t / 10 ^ j = real s * 10 ^ (t - j)"
      by simp
    have n: "nat (int t - int j) = t - j"
      by simp
    have "decimal_value (digits_of s) (int (length (digits_of s)) + int t - int j) =
        real s * 10 ^ (t - j)"
      using True by (simp add: decimal_value_def digits_value_digits_of n)
    then have "shortest_value sd r = real s * 10 ^ (t - j)"
      by (simp only: v)
    also have "\<dots> = r"
      by (simp only: r e)
    finally show ?thesis .
  next
    case False
    then have "10 ^ j = (10::real) ^ (j - t) * 10 ^ t"
      by (simp add: power_add [symmetric])
    then have e: "real s * 10 ^ t / 10 ^ j = real s / 10 ^ (j - t)"
      by simp
    have n: "nat (int j - int t) = j - t"
      by simp
    have "decimal_value (digits_of s) (int (length (digits_of s)) + int t - int j) =
        real s / 10 ^ (j - t)"
      using False by (simp add: decimal_value_def digits_value_digits_of n)
    then have "shortest_value sd r = real s / 10 ^ (j - t)"
      by (simp only: v)
    also have "\<dots> = r"
      by (simp only: r e)
    finally show ?thesis .
  qed
qed

lemma shortest_value_short:
  assumes "0 \<le> r" and "short_decimal r"
  shows "shortest_value sd r = r"
proof -
  from assms(2) obtain m j where f: "frac_shift 30 r 0 = Some (m, j)"
    and l: "length (digits_of (fst (strip10 m 0))) \<le> 15"
    by (auto simp: short_decimal_def split: option.splits)
  obtain s t where st: "strip10 m 0 = (s, t)"
    by (cases "strip10 m 0")
  with l have "length (digits_of s) \<le> 15"
    by simp
  with assms(1) f st show ?thesis
    by (rule shortest_value_exact)
qed

lemmas locale_number_eval =
  locale_number_tenths locale_number_tenths [unfolded One_nat_def] shortest_value_def
  decimal_value_def digits_value_def group3.simps

lemma digits_of_hd: "hd (digits_of n) \<in> set ''0123456789''"
  using digits_of_digits [of n] digits_of_nonempty [of n] hd_in_set [of "digits_of n"] by blast

lemma locale_number_no_plus:
  "locale_number gsep dsep sd x 1 \<noteq> [] \<and> hd (locale_number gsep dsep sd x 1) \<noteq> CHR ''+''"
proof (cases x)
  case (Fin r)
  define ds where "ds = digits_of (nat \<lfloor>shortest_value sd \<bar>r\<bar> * 10 + 1 / 2\<rfloor> div 10)"
  have ne: "ds \<noteq> []"
    unfolding ds_def by (rule digits_of_nonempty)
  have "hd ds \<in> set ''0123456789''"
    unfolding ds_def by (rule digits_of_hd)
  then have "hd ds \<noteq> CHR ''+''"
    by auto
  with group3_hd [OF ne, of gsep] have "group3 gsep ds \<noteq> []" "hd (group3 gsep ds) \<noteq> CHR ''+''"
    by simp_all
  then show ?thesis
    unfolding Fin locale_number_tenths ds_def [symmetric] by (cases "group3 gsep ds") auto
qed (simp_all add: locale_number_def)

subsection \<open>The parts of a card\<close>





subsection \<open>Parsing what was printed\<close>

lemma hex_val_hex_char: "d < 16 \<Longrightarrow> hex_val (hex_char d) = Some d"
proof -
  assume "d < 16"
  then have "d \<in> {0, 1, 2, 3, 4, 5, 6, 7, 8, 9, 10, 11, 12, 13, 14, 15}"
    by simp arith
  then show ?thesis
    by (auto simp: hex_val_def hex_char_def)
qed

lemma hex4_control:
  assumes "n < 32"
  shows "hex4 (CHR ''0'' # CHR ''0'' # hex_char (n div 16) # hex_char (n mod 16) # t) = Some n"
proof -
  have a: "hex_val (hex_char (n div 16)) = Some (n div 16)"
    using assms by (intro hex_val_hex_char) simp
  have b: "hex_val (hex_char (n mod 16)) = Some (n mod 16)"
    by (intro hex_val_hex_char) simp
  have z: "hex_val (CHR ''0'') = Some 0"
    by (simp add: hex_val_def)
  show ?thesis
    by (simp add: hex4_def a b z)
qed

lemma parse_chars_escape: "parse_chars (json_escape c @ t) = prepend [c] (parse_chars t)"
proof -
  consider (b) "c = CHR 0x08" | (t) "c = CHR 0x09" | (n) "c = CHR 0x0A" | (f) "c = CHR 0x0C"
    | (r) "c = CHR 0x0D" | (q) "c = CHR 0x22" | (s) "c = CHR 0x5C"
    | (u) "c \<notin> {CHR 0x08, CHR 0x09, CHR 0x0A, CHR 0x0C, CHR 0x0D, CHR 0x22, CHR 0x5C}" "(of_char c :: nat) < 32"
    | (plain) "c \<notin> {CHR 0x08, CHR 0x09, CHR 0x0A, CHR 0x0C, CHR 0x0D, CHR 0x22, CHR 0x5C}" "\<not> (of_char c :: nat) < 32"
    by blast
  then show ?thesis
  proof cases
    case u
    have "utf8 (of_char c) = [c]"
      using u(2) by (simp add: utf8_def)
    then show ?thesis
      using u hex4_control [of "of_char c" t]
      by (simp add: json_escape_def parse_chars.simps)
  next
    case plain
    then show ?thesis
      by (simp add: json_escape_def parse_chars.simps)
  qed (simp_all add: json_escape_def parse_chars.simps unescape_def)
qed

lemma parse_chars_quoted:
  "parse_chars (concat (map json_escape s) @ CHR 0x22 # rest) = Some (s, rest)"
proof (induction s)
  case Nil
  then show ?case by (simp add: parse_chars.simps)
next
  case (Cons c s)
  then show ?case
    using parse_chars_escape [of c "concat (map json_escape s) @ CHR 0x22 # rest"]
    by (simp add: prepend_def)
qed

lemma parse_string_quote: "parse_chars (tl (json_quote s) @ rest) = Some (s, rest)"
  using parse_chars_quoted [of s rest] by (simp add: json_quote_def)

lemma skip_ws_nows: "\<not> is_ws c \<Longrightarrow> skip_ws (c # r) = c # r"
  by (simp add: skip_ws_def)

lemma skip_ws_nil: "skip_ws [] = []"
  by (simp add: skip_ws_def)

lemma number_char_not_ws: "number_char c \<Longrightarrow> \<not> is_ws c"
  by (auto simp: number_char_def is_ws_def)

lemma json_number_nonempty: "json_number t \<Longrightarrow> t \<noteq> []"
  by (auto simp: json_number_def Let_def)

lemma takeWhile_closes:
  assumes "list_all number_char t" and "closes rest"
  shows "takeWhile number_char (t @ rest) = t \<and> dropWhile number_char (t @ rest) = rest"
proof -
  have r: "takeWhile number_char rest = [] \<and> dropWhile number_char rest = rest"
    using assms(2) by (cases rest) (auto simp: closes_def number_char_def)
  have "\<forall>x\<in>set t. number_char x"
    using assms(1) by (simp add: list_all_iff)
  then show ?thesis
    using r by (simp add: takeWhile_append2 dropWhile_append2)
qed

lemma parse_number_ok:
  assumes "num_ok P x" and "closes rest"
  shows "parse_number P (numToString P x @ rest) = Some (Num x, rest)"
  using assms takeWhile_closes [of "numToString P x" rest]
  by (simp add: parse_number_def num_ok_def)

lemma parse_value_number:
  assumes "num_ok P x" and "closes rest"
  shows "parse_value P (Suc n) (numToString P x @ rest) = Some (Num x, rest)"
proof -
  from assms(1) have ne: "numToString P x \<noteq> []" and nc: "list_all number_char (numToString P x)"
    by (auto simp: num_ok_def dest: json_number_nonempty)
  then obtain c t where ct: "numToString P x = c # t"
    by (cases "numToString P x") auto
  with nc have c: "number_char c" by simp
  then have nows: "\<not> is_ws c" by (rule number_char_not_ws)
  from c have d: "c \<noteq> CHR ''[''" "c \<noteq> CHR ''{''" "c \<noteq> CHR 0x22" "c \<noteq> CHR ''n''" "c \<noteq> CHR ''t''" "c \<noteq> CHR ''f''"
    by (auto simp: number_char_def)
  have "parse_value P (Suc n) ((c # t) @ rest) = parse_number P ((c # t) @ rest)"
    using nows d by (simp add: skip_ws_nows)
  then show ?thesis
    using parse_number_ok [OF assms] by (simp add: ct)
qed

lemma stringify_elems_text: "stringify_elems P xs = map (json_text P) xs"
  by (induction xs) (simp_all add: json_text_def)

lemma stringify_members_text:
  "json_fields P fs \<Longrightarrow>
   stringify_members P fs = map (\<lambda>(k, v). json_quote k @ '':'' @ json_text P v) fs"
proof (induction fs)
  case Nil
  then show ?case by simp
next
  case (Cons p fs)
  obtain k v where p: "p = (k, v)" by (cases p)
  with Cons.prems have "json_value P v" by simp
  then obtain s where "JSON_stringify P v = Some s" by (cases v) auto
  with Cons p show ?case by (simp add: json_text_def)
qed

lemma json_text_first:
  assumes "json_value P v"
  shows "\<exists>c t. json_text P v = c # t \<and> \<not> is_ws c \<and> c \<noteq> CHR '']'' \<and> c \<noteq> CHR ''}''"
proof (cases v)
  case (Num x)
  with assms have "json_number (numToString P x)" "list_all number_char (numToString P x)"
    by (simp_all add: num_ok_def)
  then obtain c t where "numToString P x = c # t" "number_char c"
    by (cases "numToString P x") (auto dest: json_number_nonempty)
  moreover from this have "\<not> is_ws c" "c \<noteq> CHR '']''" "c \<noteq> CHR ''}''"
    by (auto simp: number_char_def is_ws_def)
  moreover have "json_text P v = numToString P x"
    using assms Num by (cases x) (simp_all add: json_text_def num_ok_def)
  ultimately show ?thesis by simp
qed (use assms in \<open>auto simp: json_text_def json_quote_def is_ws_def\<close>)

lemma roundtripsI:
  assumes "\<And>m rest. closes rest \<Longrightarrow>
      parse_value P (Suc m) (json_text P v @ rest) = Some (v, rest)"
  shows "roundtrips P v"
  unfolding roundtrips_def
proof (intro allI impI)
  fix n rest
  assume c: "closes rest" and "2 * length (json_text P v) < n"
  then obtain m where "n = Suc m"
    by (cases n) auto
  with assms [OF c] show "parse_value P n (json_text P v @ rest) = Some (v, rest)"
    by simp
qed

lemma roundtrips_Null: "roundtrips P Null"
  by (rule roundtripsI) (simp add: json_text_def skip_ws_nows is_ws_def)

lemma roundtrips_Bool: "roundtrips P (Bool b)"
  by (rule roundtripsI) (simp add: json_text_def skip_ws_nows is_ws_def)

lemma json_quote_parse:
  "\<exists>kq. json_quote k = CHR 0x22 # kq \<and> (\<forall>t. parse_chars (kq @ t) = Some (k, t))"
  using parse_chars_quoted [of k] by (simp add: json_quote_def)

lemma roundtrips_Str: "roundtrips P (Str s)"
proof (rule roundtripsI)
  fix m rest
  obtain kq where "json_quote s = CHR 0x22 # kq" "\<And>t. parse_chars (kq @ t) = Some (s, t)"
    using json_quote_parse [of s] by blast
  then show "parse_value P (Suc m) (json_text P (Str s) @ rest) = Some (Str s, rest)"
    by (simp add: json_text_def skip_ws_nows is_ws_def)
qed

lemma roundtrips_Num: "num_ok P x \<Longrightarrow> roundtrips P (Num x)"
proof (rule roundtripsI)
  fix m rest
  assume ok: "num_ok P x" and c: "closes rest"
  then have t: "json_text P (Num x) = numToString P x"
    by (cases x) (simp_all add: json_text_def num_ok_def)
  show "parse_value P (Suc m) (json_text P (Num x) @ rest) = Some (Num x, rest)"
    unfolding t using ok c by (rule parse_value_number)
qed

lemma closes_simps [simp]:
  "closes (CHR '','' # r)" "closes (CHR '']'' # r)" "closes (CHR ''}'' # r)" "closes []"
  by (simp_all add: closes_def)

lemma parse_elems_roundtrip:
  assumes "xs \<noteq> []" and "\<forall>x\<in>set xs. roundtrips P x"
    and "2 * length (join_with '','' (map (json_text P) xs)) + 1 < n"
  shows "parse_elems P n (join_with '','' (map (json_text P) xs) @ CHR '']'' # rest) = Some (xs, rest)"
  using assms
proof (induction xs arbitrary: n)
  case Nil
  then show ?case by simp
next
  case (Cons x xs)
  from Cons.prems(3) obtain m where n: "n = Suc m" by (cases n) auto
  have rx: "roundtrips P x" using Cons.prems(2) by simp
  show ?case
  proof (cases xs)
    case Nil
    have "2 * length (json_text P x) < m"
      using Cons.prems(3) n Nil by simp
    then have "parse_value P m (json_text P x @ CHR '']'' # rest) = Some (x, CHR '']'' # rest)"
      using rx by (simp add: roundtrips_def)
    then show ?thesis
      unfolding Nil n by (simp add: skip_ws_nows is_ws_def)
  next
    case (Cons y ys)
    let ?j = "join_with '','' (map (json_text P) xs)"
    have j: "join_with '','' (map (json_text P) (x # xs)) = json_text P x @ '','' @ ?j"
      using Cons by simp
    have "2 * length (json_text P x) < m"
      using Cons.prems(3) unfolding n j by simp
    then have pv: "parse_value P m (json_text P x @ CHR '','' # ?j @ CHR '']'' # rest) = Some (x, CHR '','' # ?j @ CHR '']'' # rest)"
      using rx by (simp add: roundtrips_def)
    have "2 * length ?j + 1 < m"
      using Cons.prems(3) unfolding n j by simp
    moreover have "xs \<noteq> []" using Cons by simp
    moreover have "\<forall>x\<in>set xs. roundtrips P x" using Cons.prems(2) by simp
    ultimately have "parse_elems P m (?j @ CHR '']'' # rest) = Some (xs, rest)"
      by (intro Cons.IH)
    with pv show ?thesis
      unfolding n j by (simp add: skip_ws_nows is_ws_def)
  qed
qed

lemma dropWhile_all_before:
  "list_all (\<lambda>x. \<not> Q x) (dropWhile Q (xs @ k # ys)) \<Longrightarrow> Q k \<Longrightarrow> list_all Q xs"
  by (induction xs) (auto split: if_splits)

lemma insert_index_append:
  "\<forall>p\<in>set acc. is_index (fst p) \<and> digits_value (fst p) < digits_value k \<Longrightarrow>
   insert_index k v acc = acc @ [(k, v)]"
  by (induction acc) auto

lemma obj_put_canonical:
  assumes "canonical_keys (map fst acc @ k # ks)"
  shows "obj_put acc k v = acc @ [(k, v)]"
proof -
  from assms have d: "distinct (map fst acc @ k # ks)"
    and so: "sorted_wrt (<) (map digits_value (takeWhile is_index (map fst acc @ k # ks)))"
    and rest: "list_all (\<lambda>k. \<not> is_index k) (dropWhile is_index (map fst acc @ k # ks))"
    by (simp_all add: canonical_keys_def)
  from d have fresh: "map_of acc k = None"
    by (auto simp: map_of_eq_None_iff)
  show ?thesis
  proof (cases "is_index k")
    case False
    with fresh show ?thesis
      by (simp add: obj_put_def)
  next
    case True
    have allix: "list_all is_index (map fst acc)"
      using rest True by (rule dropWhile_all_before)
    then have "\<And>x. x \<in> set (map fst acc) \<Longrightarrow> is_index x"
      by (auto simp: list_all_iff)
    then have "takeWhile is_index (map fst acc @ k # ks) = map fst acc @ takeWhile is_index (k # ks)"
      by (rule takeWhile_append2)
    then have "takeWhile is_index (map fst acc @ k # ks) = map fst acc @ k # takeWhile is_index ks"
      using True by simp
    with so have "sorted_wrt (<) (map digits_value (map fst acc) @ digits_value k # map digits_value (takeWhile is_index ks))"
      by simp
    then have "\<forall>a\<in>set (map fst acc). digits_value a < digits_value k"
      by (auto simp: sorted_wrt_append)
    with allix have "\<forall>p\<in>set acc. is_index (fst p) \<and> digits_value (fst p) < digits_value k"
      by (auto simp: list_all_iff)
    then have "insert_index k v acc = acc @ [(k, v)]"
      by (rule insert_index_append)
    with fresh True show ?thesis
      by (simp add: obj_put_def)
  qed
qed

lemma parse_members_roundtrip:
  assumes "fs \<noteq> []" and "\<forall>p\<in>set fs. roundtrips P (snd p)"
    and "canonical_keys (map fst (acc @ fs))"
    and "2 * length (join_with '','' (map (\<lambda>(k, v). json_quote k @ '':'' @ json_text P v) fs)) + 1 < n"
  shows "parse_members P n acc
           (join_with '','' (map (\<lambda>(k, v). json_quote k @ '':'' @ json_text P v) fs) @ CHR ''}'' # rest) =
         Some (acc @ fs, rest)"
  using assms
proof (induction fs arbitrary: n acc)
  case Nil
  then show ?case by simp
next
  case (Cons p fs)
  obtain k v where p: "p = (k, v)" by (cases p)
  from Cons.prems(4) obtain m where n: "n = Suc m" by (cases n) auto
  have rv: "roundtrips P v"
    using Cons.prems(2) p by simp
  have put: "obj_put acc k v = acc @ [(k, v)]"
    using Cons.prems(3) p by (intro obj_put_canonical [of acc k "map fst fs"]) simp
  let ?e = "\<lambda>(k, v). json_quote k @ '':'' @ json_text P v"
  obtain kq where q: "json_quote k = CHR 0x22 # kq"
    and key: "\<And>t. parse_chars (kq @ t) = Some (k, t)"
    using json_quote_parse [of k] by blast
  show ?case
  proof (cases fs)
    case Nil
    have "2 * length (json_text P v) < m"
      using Cons.prems(4) n Nil p by simp
    then have pv: "parse_value P m (json_text P v @ CHR ''}'' # rest) = Some (v, CHR ''}'' # rest)"
      using rv by (simp add: roundtrips_def)
    have "parse_members P (Suc m) acc (CHR 0x22 # kq @ CHR '':'' # json_text P v @ CHR ''}'' # rest) = Some (acc @ [(k, v)], rest)"
      using key [of "CHR '':'' # json_text P v @ CHR ''}'' # rest"] pv put
      by (simp add: skip_ws_nows is_ws_def)
    then show ?thesis
      unfolding Nil p n by (simp add: q)
  next
    case (Cons p' fs')
    let ?j = "join_with '','' (map ?e fs)"
    have j: "join_with '','' (map ?e ((k, v) # fs)) = json_quote k @ '':'' @ json_text P v @ '','' @ ?j"
      using Cons by simp
    have "2 * length (json_text P v) < m"
      using Cons.prems(4) unfolding n p j by simp
    then have pv: "parse_value P m (json_text P v @ CHR '','' # ?j @ CHR ''}'' # rest) = Some (v, CHR '','' # ?j @ CHR ''}'' # rest)"
      using rv by (simp add: roundtrips_def)
    have "2 * length ?j + 1 < m"
      using Cons.prems(4) unfolding n p j by simp
    moreover have "fs \<noteq> []" using Cons by simp
    moreover have "\<forall>p\<in>set fs. roundtrips P (snd p)"
      using Cons.prems(2) by simp
    moreover have "canonical_keys (map fst ((acc @ [(k, v)]) @ fs))"
      using Cons.prems(3) p by simp
    ultimately have ih: "parse_members P m (acc @ [(k, v)]) (?j @ CHR ''}'' # rest) = Some ((acc @ [(k, v)]) @ fs, rest)"
      by (intro Cons.IH)
    have "parse_members P (Suc m) acc (CHR 0x22 # kq @ CHR '':'' # json_text P v @ CHR '','' # ?j @ CHR ''}'' # rest) = Some (acc @ (k, v) # fs, rest)"
      using key [of "CHR '':'' # json_text P v @ CHR '','' # ?j @ CHR ''}'' # rest"] pv put ih
      by (simp add: skip_ws_nows is_ws_def)
    then show ?thesis
      unfolding p n j by (simp add: q)
  qed
qed

lemma json_values_all: "json_values P xs \<Longrightarrow> x \<in> set xs \<Longrightarrow> json_value P x"
  by (induction xs) auto

lemma json_fields_all: "json_fields P fs \<Longrightarrow> p \<in> set fs \<Longrightarrow> json_value P (snd p)"
  by (induction fs) auto

lemma join_with_hd: "\<exists>t. join_with sep (x # xs) = x @ t"
  by (cases xs) simp_all

lemma json_text_Arr:
  "json_text P (Arr xs) = CHR ''['' # join_with '','' (map (json_text P) xs) @ '']''"
  by (simp add: json_text_def stringify_elems_text)

lemma json_text_Obj:
  "json_fields P fs \<Longrightarrow>
   json_text P (Obj fs) =
     CHR ''{'' # join_with '','' (map (\<lambda>(k, v). json_quote k @ '':'' @ json_text P v) fs) @ ''}''"
  by (simp add: json_text_def stringify_members_text)

lemma parse_value_arr:
  "\<not> is_ws c \<Longrightarrow> c \<noteq> CHR '']'' \<Longrightarrow>
   parse_value P (Suc m) (CHR ''['' # c # u) =
     map_option (\<lambda>(xs, t). (Arr xs, t)) (parse_elems P m (c # u))"
  by (simp add: skip_ws_nows is_ws_def)

lemma parse_value_obj:
  "\<not> is_ws c \<Longrightarrow> c \<noteq> CHR ''}'' \<Longrightarrow>
   parse_value P (Suc m) (CHR ''{'' # c # u) =
     map_option (\<lambda>(fs, t). (Obj fs, t)) (parse_members P m [] (c # u))"
  by (simp add: skip_ws_nows is_ws_def)

lemma json_value_roundtrips: "json_value P v \<Longrightarrow> roundtrips P v"
proof (induction v)
  case Undefined
  then show ?case by simp
next
  case Null
  show ?case by (rule roundtrips_Null)
next
  case (Bool b)
  show ?case by (rule roundtrips_Bool)
next
  case (Num x)
  then show ?case by (simp add: roundtrips_Num)
next
  case (Str s)
  show ?case by (rule roundtrips_Str)
next
  case (Arr xs)
  have all: "\<forall>x\<in>set xs. roundtrips P x"
    using Arr by (auto dest: json_values_all)
  let ?j = "join_with '','' (map (json_text P) xs)"
  show ?case
    unfolding roundtrips_def json_text_Arr
  proof (intro allI impI)
    fix n rest
    assume "2 * length (CHR ''['' # ?j @ '']'') < n"
    then obtain m where n: "n = Suc m" and m: "2 * length ?j + 1 < m"
      by (cases n) auto
    show "parse_value P n ((CHR ''['' # ?j @ '']'') @ rest) = Some (Arr xs, rest)"
    proof (cases xs)
      case Nil
      then show ?thesis
        by (simp add: n skip_ws_nows is_ws_def)
    next
      case (Cons x xs')
      then have "json_value P x"
        using Arr.prems by simp
      then obtain c t where c: "json_text P x = c # t" "\<not> is_ws c" "c \<noteq> CHR '']''"
        using json_text_first by blast
      obtain t' where "?j = json_text P x @ t'"
        using join_with_hd [of "'',''" "json_text P x" "map (json_text P) xs'"] Cons by auto
      with c have j: "?j = c # t @ t'"
        by simp
      have pe: "parse_elems P m (?j @ CHR '']'' # rest) = Some (xs, rest)"
        using Cons all m by (intro parse_elems_roundtrip) auto
      have "parse_value P (Suc m) (CHR ''['' # c # ((t @ t') @ CHR '']'' # rest)) =
          map_option (\<lambda>(xs, t). (Arr xs, t)) (parse_elems P m (c # ((t @ t') @ CHR '']'' # rest)))"
        using c(2,3) by (rule parse_value_arr)
      also have "c # ((t @ t') @ CHR '']'' # rest) = ?j @ CHR '']'' # rest"
        unfolding j by simp
      finally show ?thesis
        unfolding n pe by simp
    qed
  qed
next
  case (Obj fs)
  from Obj.prems have jf: "json_fields P fs" and dist: "canonical_keys (map fst fs)"
    by simp_all
  have all: "\<forall>p\<in>set fs. roundtrips P (snd p)"
  proof
    fix p
    assume p: "p \<in> set fs"
    then have "json_value P (snd p)"
      using json_fields_all [OF jf p] by simp
    moreover have "snd p \<in> Basic_BNFs.snds p"
      by (cases p) simp
    ultimately show "roundtrips P (snd p)"
      using Obj.IH [OF p] by simp
  qed
  let ?e = "\<lambda>(k, v). json_quote k @ '':'' @ json_text P v"
  let ?j = "join_with '','' (map ?e fs)"
  show ?case
    unfolding roundtrips_def json_text_Obj [OF jf]
  proof (intro allI impI)
    fix n rest
    assume "2 * length (CHR ''{'' # ?j @ ''}'') < n"
    then obtain m where n: "n = Suc m" and m: "2 * length ?j + 1 < m"
      by (cases n) auto
    show "parse_value P n ((CHR ''{'' # ?j @ ''}'') @ rest) = Some (Obj fs, rest)"
    proof (cases fs)
      case Nil
      then show ?thesis
        by (simp add: n skip_ws_nows is_ws_def)
    next
      case (Cons p fs')
      obtain k v where p: "p = (k, v)"
        by (cases p)
      obtain t' where "?j = ?e p @ t'"
        using join_with_hd [of "'',''" "?e p" "map ?e fs'"] Cons by auto
      then obtain u where j: "?j = CHR 0x22 # u"
        by (simp add: p json_quote_def)
      have pm: "parse_members P m [] (?j @ CHR ''}'' # rest) = Some ([] @ fs, rest)"
        using Cons all m dist by (intro parse_members_roundtrip) auto
      have "parse_value P (Suc m) (CHR ''{'' # CHR 0x22 # (u @ CHR ''}'' # rest)) =
          map_option (\<lambda>(fs, t). (Obj fs, t)) (parse_members P m [] (CHR 0x22 # (u @ CHR ''}'' # rest)))"
        by (rule parse_value_obj) (simp_all add: is_ws_def)
      also have "CHR 0x22 # (u @ CHR ''}'' # rest) = ?j @ CHR ''}'' # rest"
        unfolding j by simp
      finally show ?thesis
        unfolding n pm by simp
    qed
  qed
qed

lemma JSON_parse_stringify:
  assumes "json_value P v"
  shows "\<exists>s. JSON_stringify P v = Some s \<and> s \<noteq> [] \<and> JSON_parse P s = Inr v"
proof -
  obtain s where s: "JSON_stringify P v = Some s"
    using assms by (cases v) auto
  then have t: "json_text P v = s"
    by (simp add: json_text_def)
  have ne: "s \<noteq> []"
    using json_text_first [OF assms] t by auto
  have rt: "roundtrips P v"
    using assms by (rule json_value_roundtrips)
  have "closes []"
    by simp
  moreover have "2 * length (json_text P v) < Suc (2 * length s)"
    by (simp add: t)
  ultimately have "parse_value P (Suc (2 * length s)) (json_text P v @ []) = Some (v, [])"
    using rt unfolding roundtrips_def by blast
  then have "parse_value P (Suc (2 * length s)) s = Some (v, [])"
    by (simp only: t append_Nil2)
  then have "JSON_parse P s = Inr v"
    unfolding JSON_parse_def by (simp add: skip_ws_nil)
  with s ne show ?thesis
    by simp
qed

subsection \<open>The claims\<close>

text \<open>
  C1.  When a fetch resolves successfully to a snapshot \<open>d\<close> that is not usable,
  \<^verbatim>\<open>fetchDashboard\<close> neither persists nor renders it: storage, page and console are what they
  were before the fetch, whatever they were; in particular what an earlier usable snapshot
  left there.
\<close>

theorem fetchDashboard_unusable_unchanged:
  assumes "isUsable P d = Inr False"
  shows "fetchDashboard P base (Resolved True status (Inr d)) b = b"
  using assms by (simp add: fetchDashboard_def)

theorem fetchDashboard_unusable_unchanged_witness:
  "fetchDashboard en_US ''http://127.0.0.1:8000''
     (Resolved True 200
        (Inr (Obj [(''price_usd'', Num (Fin 0)), (''market_cap_usd'', Num (Fin 0)),
                   (''transactions'', Arr [])])))
     (fetchDashboard en_US ''http://127.0.0.1:8000''
        (Resolved True 200 (Inr (Obj [(''price_usd'', Num (Fin (1 / 2)))])))
        \<lparr>page = Map.empty,
         local_storage = \<lparr>items = Map.empty, denies_read = False, denies_write = False\<rparr>,
         console = []\<rparr>)
   = fetchDashboard en_US ''http://127.0.0.1:8000''
        (Resolved True 200 (Inr (Obj [(''price_usd'', Num (Fin (1 / 2)))])))
        \<lparr>page = Map.empty,
         local_storage = \<lparr>items = Map.empty, denies_read = False, denies_write = False\<rparr>,
         console = []\<rparr>"
  by (rule fetchDashboard_unusable_unchanged) (simp add: isUsable_def getField_def and_then_def)

text \<open>
  C2.  \<^verbatim>\<open>isUsable(d)\<close> is true exactly when \<open>d\<close> is not \<^verbatim>\<open>null\<close> and the price is positive, or
  the market cap is positive, or the transactions are a non-empty array.  The fields are
  compared as Numbers, \<open>a\<close> and \<open>b\<close> being what \<^verbatim>\<open>Number\<close> makes of them.
\<close>

theorem isUsable_iff:
  assumes "toNumber P (fld d ''price_usd'') = Inr a"
    and "toNumber P (fld d ''market_cap_usd'') = Inr b"
  shows "isUsable P d =
     Inr (d \<noteq> Null \<and>
          (num_lt (Fin 0) a \<or> num_lt (Fin 0) b \<or>
           (\<exists>xs. fld d ''transactions'' = Arr xs \<and> xs \<noteq> [])))"
proof (cases "truthy d")
  case True
  then have "d \<noteq> Null" "d \<noteq> Undefined"
    by auto
  with True assms show ?thesis
    by (auto simp: isUsable_def getField_def and_then_def split: jsval.splits)
next
  case False
  then have "fld d ''price_usd'' = Undefined" "fld d ''market_cap_usd'' = Undefined"
    "fld d ''transactions'' = Undefined"
    by (cases d; simp)+
  with assms False show ?thesis
    by (auto simp: isUsable_def)
qed

theorem isUsable_iff_witness:
  "isUsable en_US
     (Obj [(''price_usd'', Num (Fin 0)), (''market_cap_usd'', Num (Fin 0)),
           (''transactions'', Arr [])]) = Inr False \<and>
   isUsable en_US (Obj [(''price_usd'', Num (Fin (1 / 2)))]) = Inr True \<and>
   isUsable en_US (Obj [(''transactions'', Arr [Obj [(''kind'', Str ''burn'')]])]) = Inr True \<and>
   isUsable en_US Null = Inr False"
  using
    isUsable_iff [of en_US "Obj [(''price_usd'', Num (Fin 0)), (''market_cap_usd'', Num (Fin 0)),
           (''transactions'', Arr [])]" "Fin 0" "Fin 0"]
    isUsable_iff [of en_US "Obj [(''price_usd'', Num (Fin (1 / 2)))]" "Fin (1 / 2)" NaN]
    isUsable_iff [of en_US "Obj [(''transactions'', Arr [Obj [(''kind'', Str ''burn'')]])]" NaN NaN]
    isUsable_iff [of en_US Null NaN NaN]
  by simp

text \<open>
  C5.  The width \<^verbatim>\<open>setWidth\<close> gives an element is the percentage clamped into \<open>[0, 100]\<close>,
  printed and followed by a percent sign; 150 gives \<^verbatim>\<open>100%\<close> and -10 gives \<^verbatim>\<open>0%\<close>.
\<close>

theorem setWidth_clamps:
  "setWidth P (Some e) (Num (Fin r)) =
     Inr (Some (e\<lparr>style_width := numToString P (Fin (max 0 (min 100 r))) @ ''%''\<rparr>)) \<and>
   setWidth P (Some e) (Num (Fin 150)) = Inr (Some (e\<lparr>style_width := ''100%''\<rparr>)) \<and>
   setWidth P (Some e) (Num (Fin (- 10))) = Inr (Some (e\<lparr>style_width := ''0%''\<rparr>))"
  by (simp add: setWidth_def and_then_def js_max_def js_min_def max_def min_def num_eval)

theorem setWidth_clamps_witness:
  "setWidth en_US (Some \<lparr>textContent = [], innerHTML = [], style_width = []\<rparr>)
     (Num (Fin (85 / 2))) =
   Inr (Some \<lparr>textContent = [], innerHTML = [], style_width = ''42.5%''\<rparr>)"
  using setWidth_clamps [of en_US "\<lparr>textContent = [], innerHTML = [], style_width = []\<rparr>" "85 / 2"]
  by (simp add: num_eval)

text \<open>
  C6, as amended.  The API base is the override with its trailing slashes stripped when
  the override is a non-empty string; with no override (or an empty one) it is the local
  development URL when the hostname begins with \<^verbatim>\<open>localhost\<close> or with \<^verbatim>\<open>127.\<close>, and the
  empty string otherwise.  The result never ends in a slash, and stripping removes
  nothing but slashes at the end.
\<close>

theorem API_BASE_resolved:
  "API_BASE h Undefined =
     Inr (if prefix ''localhost'' h \<or> prefix ''127.'' h then ''http://127.0.0.1:8000'' else []) \<and>
   API_BASE h (Str []) = API_BASE h Undefined \<and>
   (s \<noteq> [] \<longrightarrow> API_BASE h (Str s) = Inr (strip_trailing_slashes s)) \<and>
   (API_BASE h ov = Inr b \<longrightarrow> b = [] \<or> last b \<noteq> CHR ''/'') \<and>
   (\<exists>n. s = strip_trailing_slashes s @ replicate n (CHR ''/''))"
proof (intro conjI impI)
  show "API_BASE h Undefined =
     Inr (if prefix ''localhost'' h \<or> prefix ''127.'' h then ''http://127.0.0.1:8000'' else [])"
    by (simp add: API_BASE_def isLocal_def strip_trailing_slashes_def)
  show "API_BASE h (Str []) = API_BASE h Undefined"
    by (simp add: API_BASE_def)
  show "API_BASE h (Str s) = Inr (strip_trailing_slashes s)" if "s \<noteq> []"
    using that by (simp add: API_BASE_def)
  show "b = [] \<or> last b \<noteq> CHR ''/''" if "API_BASE h ov = Inr b"
    using that strip_trailing_slashes_last
    by (auto simp: API_BASE_def split: jsval.splits if_splits)
  show "\<exists>n. s = strip_trailing_slashes s @ replicate n (CHR ''/'')"
    by (rule strip_trailing_slashes_shape)
qed

theorem API_BASE_resolved_witness:
  "API_BASE ''tolkien.example'' (Str ''https://api.tolkien.example//'') =
     Inr ''https://api.tolkien.example'' \<and>
   API_BASE ''127.0.0.1'' Undefined = Inr ''http://127.0.0.1:8000'' \<and>
   API_BASE ''tolkien.example'' Undefined = Inr []"
  using API_BASE_resolved [of "''tolkien.example''" "''https://api.tolkien.example//''"]
    API_BASE_resolved [of "''127.0.0.1''"]
  by (simp add: strip_trailing_slashes_def)

text \<open>
  C6 as stated fails: a hostname that only begins with \<^verbatim>\<open>localhost\<close> is neither
  \<^verbatim>\<open>localhost\<close> nor does it begin with \<^verbatim>\<open>127.\<close>, and with no override it still gets the
  local development URL, not the empty string.
\<close>

theorem API_BASE_localhost_prefix:
  "API_BASE ''localhost.example.com'' Undefined = Inr ''http://127.0.0.1:8000'' \<and>
   ''localhost.example.com'' \<noteq> ''localhost'' \<and>
   \<not> prefix ''127.'' ''localhost.example.com''"
  by (simp add: API_BASE_def isLocal_def strip_trailing_slashes_def)

text \<open>
  C8.  For a well-typed snapshot whose transactions are an empty array or absent, on a
  page that has the list container, \<^verbatim>\<open>renderDashboard\<close> completes and the container's
  content is exactly the placeholder line.
\<close>

theorem renderDashboard_empty_list:
  assumes wt: "well_typed d"
    and empty: "fld d ''transactions'' = Arr [] \<or> \<not> truthy (fld d ''transactions'')"
    and list: "D ''txList'' = Some e"
  shows "\<exists>D'. renderDashboard P d D = (D', None) \<and>
           D' ''txList'' = Some (e\<lparr>innerHTML := no_transactions\<rparr>)"
proof -
  obtain D1 err where r: "run (render_head P d) D = (D1, err)"
    by (cases "run (render_head P d) D")
  have "err = None"
    using run_completes [OF render_head_completes [OF wt], of P D] r by simp
  moreover have "D1 ''txList'' = Some e"
    using run_preserves [OF render_head_preserves_list, of P d D] r list by simp
  moreover from wt have "d \<noteq> Null" "d \<noteq> Undefined"
    by (simp_all add: well_typed_def)
  ultimately show ?thesis
    using r set_list_empty [of d D1 e P] empty
    by (simp add: renderDashboard_def render_stmts_snoc run_append)
qed

theorem renderDashboard_empty_list_witness:
  \<open>\<exists>D'. renderDashboard en_US
           (Obj [(''price_usd'', Num (Fin (1 / 2))), (''transactions'', Arr [])])
           [''txList'' \<mapsto> \<lparr>textContent = [], innerHTML = ''stale'', style_width = []\<rparr>]
         = (D', None) \<and>
         D' ''txList'' =
           Some \<lparr>textContent = [],
                 innerHTML = ''<div class="text-sm opacity-70 px-2">No recent transactions.</div>'',
                 style_width = []\<rparr>\<close>
  using renderDashboard_empty_list [of
      "Obj [(''price_usd'', Num (Fin (1 / 2))), (''transactions'', Arr [])]"
      "[''txList'' \<mapsto> \<lparr>textContent = [], innerHTML = ''stale'', style_width = []\<rparr>]"
      "\<lparr>textContent = [], innerHTML = ''stale'', style_width = []\<rparr>" en_US]
  by (simp add: well_typed_def snapshot_fields_def scalar_def no_transactions_def)

text \<open>
  C9.  When the snapshot's \<^verbatim>\<open>token_mint\<close> is absent or empty (or falsy in any other way),
  \<^verbatim>\<open>renderDashboard\<close> leaves the contract address element as it was, whether the call
  completes or throws; so the element is changed only when \<^verbatim>\<open>token_mint\<close> is truthy.
\<close>

theorem renderDashboard_keeps_contract:
  assumes "\<not> truthy (fld d ''token_mint'')"
  shows "fst (renderDashboard P d D) ''contractAddress'' = D ''contractAddress''"
  unfolding renderDashboard_def
  by (rule run_preserves)
     (simp add: render_stmts_def preserves_set_text preserves_call_setWidth preserves_set_list
        preserves_set_contract_falsy [OF assms])

theorem renderDashboard_keeps_contract_witness:
  "fst (renderDashboard en_US (Obj [(''price_usd'', Num (Fin (1 / 2))), (''token_mint'', Str [])])
          [''contractAddress'' \<mapsto> \<lparr>textContent = ''So1anaMint'', innerHTML = [], style_width = []\<rparr>])
     ''contractAddress'' =
   Some \<lparr>textContent = ''So1anaMint'', innerHTML = [], style_width = []\<rparr>"
  using renderDashboard_keeps_contract [of
      "Obj [(''price_usd'', Num (Fin (1 / 2))), (''token_mint'', Str [])]" en_US
      "[''contractAddress'' \<mapsto> \<lparr>textContent = ''So1anaMint'', innerHTML = [], style_width = []\<rparr>]"]
  by simp

text \<open>
  C3, as amended.  For a finite Number \<open>p\<close> below \<open>10 ^ 21\<close> the price formatter gives a
  dollar sign and: for \<open>p \<ge> 0.01\<close>, \<open>p\<close> rounded to 4 fractional digits (the integer part,
  a point, and exactly 4 digits); for \<open>0.000001 \<le> p < 0.01\<close>, the same with 8 digits; for
  \<open>0 < p < 0.000001\<close>, scientific notation with one digit, a point, 2 digits, and a
  negative exponent, the three digits being \<open>p\<close> scaled and rounded; and the fixed
  \<^verbatim>\<open>$0.00\<close> for zero, for a negative number, for \<^verbatim>\<open>NaN\<close> and for a missing value.  The bounds
  are the doubles the literals \<^verbatim>\<open>0.01\<close> and \<^verbatim>\<open>0.000001\<close> denote.  The double of \<^verbatim>\<open>0.000123\<close>
  is \<open>2268949521066275 / 2 ^ 64\<close>: it formats as \<^verbatim>\<open>$0.00012300\<close>; 0.5 as \<^verbatim>\<open>$0.5000\<close>; 0
  as \<^verbatim>\<open>$0.00\<close>.
\<close>

theorem fmtPrice_tiers:
  "(lit_0_01 \<le> p \<and> p < 10 ^ 21 \<longrightarrow>
      fmtPrice P (Num (Fin p)) =
        Inr (''$'' @ digits_of (nat \<lfloor>p * 10 ^ 4 + 1 / 2\<rfloor> div 10 ^ 4) @ ''.'' @
             zero_pad 4 (digits_of (nat \<lfloor>p * 10 ^ 4 + 1 / 2\<rfloor> mod 10 ^ 4))) \<and>
      length (zero_pad 4 (digits_of (nat \<lfloor>p * 10 ^ 4 + 1 / 2\<rfloor> mod 10 ^ 4))) = 4) \<and>
   (lit_0_000001 \<le> p \<and> p < lit_0_01 \<longrightarrow>
      fmtPrice P (Num (Fin p)) =
        Inr (''$'' @ digits_of (nat \<lfloor>p * 10 ^ 8 + 1 / 2\<rfloor> div 10 ^ 8) @ ''.'' @
             zero_pad 8 (digits_of (nat \<lfloor>p * 10 ^ 8 + 1 / 2\<rfloor> mod 10 ^ 8))) \<and>
      length (zero_pad 8 (digits_of (nat \<lfloor>p * 10 ^ 8 + 1 / 2\<rfloor> mod 10 ^ 8))) = 8) \<and>
   (0 < p \<and> p < lit_0_000001 \<longrightarrow>
      (\<exists>n e. 100 \<le> n \<and> n < 1000 \<and> e \<le> - 6 \<and> \<bar>real n - p * 10 ^ nat (2 - e)\<bar> \<le> 1 / 2 \<and>
         fmtPrice P (Num (Fin p)) =
           Inr (''$'' @ [digit_char (n div 100), CHR ''.'', digit_char (n div 10 mod 10),
                         digit_char (n mod 10)] @ ''e-'' @ digits_of (nat (- e))))) \<and>
   (p \<le> 0 \<longrightarrow> fmtPrice P (Num (Fin p)) = Inr ''$0.00'') \<and>
   fmtPrice P (Num NaN) = Inr ''$0.00'' \<and>
   fmtPrice P Undefined = Inr ''$0.00'' \<and>
   fmtPrice P (Num (Fin (2268949521066275 / 2 ^ 64))) = Inr ''$0.00012300'' \<and>
   fmtPrice P (Num (Fin (1 / 2))) = Inr ''$0.5000'' \<and>
   fmtPrice P (Num (Fin 0)) = Inr ''$0.00'' \<and>
   \<bar>lit_0_01 - 1 / 100\<bar> < 1 / 10 ^ 18 \<and> \<bar>lit_0_000001 - 1 / 10 ^ 6\<bar> < 1 / 10 ^ 22 \<and>
   \<bar>2268949521066275 / 2 ^ 64 - 123 / 10 ^ 6 :: real\<bar> < 1 / 10 ^ 20"
proof (intro conjI impI)
  have l0: "0 < lit_0_000001" and l1: "lit_0_000001 < lit_0_01"
    by (simp_all add: lit_0_000001_def lit_0_01_def)
  {
    assume a: "lit_0_01 \<le> p \<and> p < 10 ^ 21"
    then have "0 \<le> p" using l0 l1 by simp
    with a show "fmtPrice P (Num (Fin p)) =
        Inr (''$'' @ digits_of (nat \<lfloor>p * 10 ^ 4 + 1 / 2\<rfloor> div 10 ^ 4) @ ''.'' @
             zero_pad 4 (digits_of (nat \<lfloor>p * 10 ^ 4 + 1 / 2\<rfloor> mod 10 ^ 4)))"
      by (simp add: fmtPrice_fin toFixed_fin fixed_digits_eq)
  }
  show "length (zero_pad 4 (digits_of (nat \<lfloor>p * 10 ^ 4 + 1 / 2\<rfloor> mod 10 ^ 4))) = 4"
    by (rule zero_pad_length) simp_all
  {
    assume a: "lit_0_000001 \<le> p \<and> p < lit_0_01"
    then have "0 \<le> p" using l0 by simp
    moreover have "p < 10 ^ 21" using a by (simp add: lit_0_01_def)
    ultimately show "fmtPrice P (Num (Fin p)) =
        Inr (''$'' @ digits_of (nat \<lfloor>p * 10 ^ 8 + 1 / 2\<rfloor> div 10 ^ 8) @ ''.'' @
             zero_pad 8 (digits_of (nat \<lfloor>p * 10 ^ 8 + 1 / 2\<rfloor> mod 10 ^ 8)))"
      using a by (simp add: fmtPrice_fin toFixed_fin fixed_digits_eq)
  }
  show "length (zero_pad 8 (digits_of (nat \<lfloor>p * 10 ^ 8 + 1 / 2\<rfloor> mod 10 ^ 8))) = 8"
    by (rule zero_pad_length) simp_all
  {
    assume a: "0 < p \<and> p < lit_0_000001"
    then have "p * 10 ^ 6 < 1" by (simp add: lit_0_000001_def)
    with a obtain n e where "100 \<le> n" "n < 1000" "e \<le> - 6"
      "\<bar>real n - p * 10 ^ nat (2 - e)\<bar> \<le> 1 / 2"
      "toExponential P (Fin p) 2 =
         [digit_char (n div 100), CHR ''.'', digit_char (n div 10 mod 10), digit_char (n mod 10)] @
         ''e-'' @ digits_of (nat (- e))"
      using toExponential_small [of p P] by blast
    moreover have "fmtPrice P (Num (Fin p)) = Inr (''$'' @ toExponential P (Fin p) 2)"
      using a l1 by (simp add: fmtPrice_fin)
    ultimately show "\<exists>n e. 100 \<le> n \<and> n < 1000 \<and> e \<le> - 6 \<and> \<bar>real n - p * 10 ^ nat (2 - e)\<bar> \<le> 1 / 2 \<and>
         fmtPrice P (Num (Fin p)) =
           Inr (''$'' @ [digit_char (n div 100), CHR ''.'', digit_char (n div 10 mod 10),
                         digit_char (n mod 10)] @ ''e-'' @ digits_of (nat (- e)))"
      by auto
  }
  show "fmtPrice P (Num (Fin p)) = Inr ''$0.00''" if "p \<le> 0"
    using that l0 l1 by (simp add: fmtPrice_fin)
  show "fmtPrice P (Num NaN) = Inr ''$0.00''"
    by (simp add: fmtPrice_def fmt_eval)
  show "fmtPrice P Undefined = Inr ''$0.00''"
    by (simp add: fmtPrice_def fmt_eval)
  show "fmtPrice P (Num (Fin (2268949521066275 / 2 ^ 64))) = Inr ''$0.00012300''"
    by (simp add: fmtPrice_def fmt_eval num_eval)
  show "fmtPrice P (Num (Fin (1 / 2))) = Inr ''$0.5000''"
    by (simp add: fmtPrice_def fmt_eval num_eval)
  show "fmtPrice P (Num (Fin 0)) = Inr ''$0.00''"
    by (simp add: fmtPrice_def fmt_eval num_eval)
  show "\<bar>lit_0_01 - 1 / 100\<bar> < 1 / 10 ^ 18"
    by (simp add: lit_0_01_def)
  show "\<bar>lit_0_000001 - 1 / 10 ^ 6\<bar> < 1 / 10 ^ 22"
    by (simp add: lit_0_000001_def)
  show "\<bar>2268949521066275 / 2 ^ 64 - 123 / 10 ^ 6 :: real\<bar> < 1 / 10 ^ 20"
    by simp
qed

theorem fmtPrice_tiers_witness:
  "fmtPrice en_US (Num (Fin (12345678 / 1000))) = Inr ''$12345.6780'' \<and>
   fmtPrice en_US (Num (Fin (5 / 1000))) = Inr ''$0.00500000'' \<and>
   fmtPrice en_US (Num (Fin (- 3))) = Inr ''$0.00''"
  using fmtPrice_tiers [of "12345678 / 1000" en_US] fmtPrice_tiers [of "5 / 1000" en_US]
    fmtPrice_tiers [of "- 3" en_US]
  by (simp add: lit_0_01_def lit_0_000001_def zero_pad_def num_eval)

text \<open>
  C3 as stated fails for large inputs: \<open>10 ^ 21\<close> is a Number not below 0.01, and
  \<^verbatim>\<open>toFixed\<close> prints a Number of that magnitude as \<^verbatim>\<open>Number::toString\<close> does, in exponent
  notation with no fractional digit; infinity prints as \<^verbatim>\<open>Infinity\<close>.
\<close>

theorem fmtPrice_huge:
  "fmtPrice en_US (Num (Fin (10 ^ 21))) = Inr ''$1e+21'' \<and>
   num_le (Fin lit_0_01) (Fin (10 ^ 21)) \<and>
   fmtPrice en_US (Num PosInf) = Inr ''$Infinity''"
  by (simp add: fmtPrice_def fmt_eval num_eval)

text \<open>
  C4.  The digits and the separators of the percentage are those of the default locale of
  the runtime.  Where that locale writes numbers as \<^verbatim>\<open>en-US\<close> does, the formatter gives for
  a finite Number \<open>r\<close>: a plus sign exactly when \<open>r \<ge> 0\<close> and a minus sign otherwise; the
  tenths of \<open>r\<close>, which are its shortest decimal rounded to one fraction digit, a tie away
  from zero, as integer digits in groups of three and, unless it is 0, one fraction digit
  after a point; and a percent sign.  A Number of at most 15 significant digits is its own
  shortest decimal.  So 5 gives \<^verbatim>\<open>+5%\<close> and -3.25 gives \<^verbatim>\<open>-3.3%\<close>.  \<^verbatim>\<open>NaN\<close> is formatted as 0
  without a sign, and an infinity as the sign and the locale's symbol.
\<close>

theorem fmtPct_signed:
  assumes "to_locale_string P = en_US_number (shortest_digits P)"
  shows "(let n = nat \<lfloor>shortest_value (shortest_digits P) \<bar>r\<bar> * 10 + 1 / 2\<rfloor> in
          fmtPct P (Num (Fin r)) =
            Inr ((if 0 \<le> r then ''+'' else ''-'') @ group3 '','' (digits_of (n div 10)) @
                 (if n mod 10 = 0 then [] else ''.'' @ [digit_char (n mod 10)]) @ ''%'')) \<and>
   (short_decimal \<bar>r\<bar> \<longrightarrow>
      (let n = nat \<lfloor>\<bar>r\<bar> * 10 + 1 / 2\<rfloor> in
       fmtPct P (Num (Fin r)) =
         Inr ((if 0 \<le> r then ''+'' else ''-'') @ group3 '','' (digits_of (n div 10)) @
              (if n mod 10 = 0 then [] else ''.'' @ [digit_char (n mod 10)]) @ ''%''))) \<and>
   (\<exists>s. fmtPct P (Num x) = Inr s \<and> (hd s = CHR ''+'') = num_le (Fin 0) x \<and> last s = CHR ''%'') \<and>
   fmtPct P (Num (Fin 5)) = Inr ''+5%'' \<and>
   fmtPct P (Num (Fin (- 13 / 4))) = Inr ''-3.3%'' \<and>
   fmtPct P (Num NaN) = Inr ''0%'' \<and>
   fmtPct P (Num PosInf) = Inr (''+'' @ [CHR 0xE2, CHR 0x88, CHR 0x9E] @ ''%'') \<and>
   fmtPct P (Num NegInf) = Inr (''-'' @ [CHR 0xE2, CHR 0x88, CHR 0x9E] @ ''%'')"
proof (intro conjI)
  have fin: "fmtPct P (Num (Fin q)) =
      Inr ((if 0 \<le> q then ''+'' else []) @ locale_number '','' ''.'' (shortest_digits P) (Fin q) 1 @ ''%'')"
    for q
    by (simp add: fmtPct_def and_then_def num_le_def assms en_US_number_def)
  show main: "let n = nat \<lfloor>shortest_value (shortest_digits P) \<bar>r\<bar> * 10 + 1 / 2\<rfloor> in
        fmtPct P (Num (Fin r)) =
          Inr ((if 0 \<le> r then ''+'' else ''-'') @ group3 '','' (digits_of (n div 10)) @
               (if n mod 10 = 0 then [] else ''.'' @ [digit_char (n mod 10)]) @ ''%'')"
    unfolding Let_def fin locale_number_tenths by simp
  show "short_decimal \<bar>r\<bar> \<longrightarrow>
      (let n = nat \<lfloor>\<bar>r\<bar> * 10 + 1 / 2\<rfloor> in
       fmtPct P (Num (Fin r)) =
         Inr ((if 0 \<le> r then ''+'' else ''-'') @ group3 '','' (digits_of (n div 10)) @
              (if n mod 10 = 0 then [] else ''.'' @ [digit_char (n mod 10)]) @ ''%''))"
  proof
    assume "short_decimal \<bar>r\<bar>"
    then have sv: "shortest_value (shortest_digits P) \<bar>r\<bar> = \<bar>r\<bar>"
      by (simp add: shortest_value_short)
    from main show "let n = nat \<lfloor>\<bar>r\<bar> * 10 + 1 / 2\<rfloor> in
       fmtPct P (Num (Fin r)) =
         Inr ((if 0 \<le> r then ''+'' else ''-'') @ group3 '','' (digits_of (n div 10)) @
              (if n mod 10 = 0 then [] else ''.'' @ [digit_char (n mod 10)]) @ ''%'')"
      unfolding Let_def sv .
  qed
  show "\<exists>s. fmtPct P (Num x) = Inr s \<and> (hd s = CHR ''+'') = num_le (Fin 0) x \<and> last s = CHR ''%''"
    using locale_number_no_plus [of "'',''" "''.''" "shortest_digits P" "num_or_zero x"]
    by (cases "locale_number '','' ''.'' (shortest_digits P) (num_or_zero x) 1")
       (auto simp: fmtPct_def and_then_def num_or_zero_def assms en_US_number_def)
  show "fmtPct P (Num (Fin 5)) = Inr ''+5%''"
    unfolding fin by (simp add: locale_number_eval num_eval)
  show "fmtPct P (Num (Fin (- 13 / 4))) = Inr ''-3.3%''"
    unfolding fin by (simp add: locale_number_eval num_eval)
  show "fmtPct P (Num NaN) = Inr ''0%''"
    unfolding fmtPct_def assms en_US_number_def
    by (simp add: and_then_def num_le_def locale_number_eval num_eval)
  show "fmtPct P (Num PosInf) = Inr (''+'' @ [CHR 0xE2, CHR 0x88, CHR 0x9E] @ ''%'')"
    by (simp add: fmtPct_def and_then_def num_le_def assms en_US_number_def locale_number_def)
  show "fmtPct P (Num NegInf) = Inr (''-'' @ [CHR 0xE2, CHR 0x88, CHR 0x9E] @ ''%'')"
    by (simp add: fmtPct_def and_then_def num_le_def assms en_US_number_def locale_number_def)
qed

theorem fmtPct_signed_witness:
  "fmtPct en_US (Num (Fin (1234567 / 100))) = Inr ''+12,345.7%'' \<and>
   fmtPct en_US (Num (Fin (3152519739159347 / 2 ^ 53))) = Inr ''+0.4%'' \<and>
   fmtPct en_US (Num (Fin 0)) = Inr ''+0%'' \<and>
   fmtPct en_US (Num (Fin (- 1999 / 2))) = Inr ''-999.5%''"
  using fmtPct_signed [of en_US "1234567 / 100", THEN conjunct1]
    fmtPct_signed [of en_US "3152519739159347 / 2 ^ 53", THEN conjunct1]
    fmtPct_signed [of en_US 0, THEN conjunct1]
    fmtPct_signed [of en_US "- 1999 / 2", THEN conjunct2, THEN conjunct1]
  by (simp add: en_US_def sample_digits_def short_decimal_def locale_number_eval num_eval)

text \<open>
  In the locale \<^verbatim>\<open>de-DE\<close> the decimal separator is a comma: -3.25 gives \<^verbatim>\<open>-3,3%\<close>.
\<close>

theorem fmtPct_de_DE:
  "fmtPct de_DE (Num (Fin (- 13 / 4))) = Inr ''-3,3%'' \<and>
   fmtPct de_DE (Num (Fin (- 13 / 4))) \<noteq> Inr ''-3.3%''"
  by (simp add: fmtPct_def and_then_def num_le_def de_DE_def de_DE_number_def
      locale_number_eval num_eval)



text \<open>
  C10.  When storage refuses neither the write nor the read, saving a JSON-serializable
  snapshot and loading the cache gives the snapshot back: \<^verbatim>\<open>JSON.parse\<close> reads what
  \<^verbatim>\<open>JSON.stringify\<close> printed, through the one cache slot.
\<close>

theorem cache_roundtrip:
  assumes "json_value P d" and "\<not> denies_write st" and "\<not> denies_read st"
  shows "loadCache P (saveCache P d st) = d"
proof -
  obtain s where "JSON_stringify P d = Some s" "s \<noteq> []" "JSON_parse P s = Inr d"
    using JSON_parse_stringify [OF assms(1)] by blast
  with assms(2,3) show ?thesis
    by (simp add: loadCache_def saveCache_def)
qed

theorem cache_roundtrip_witness:
  "loadCache en_US
     (saveCache en_US
        (Obj [(''price_usd'', Num (Fin (1 / 2))), (''token_mint'', Str ''So1anaMint''),
              (''transactions'',
               Arr [Obj [(''kind'', Str ''burn''), (''amount_sol'', Num (Fin (5 / 2))),
                         (''description'', Str [CHR ''a'', CHR 0x22, CHR 0x0A])], Null, Bool True])])
        \<lparr>items = Map.empty, denies_read = False, denies_write = False\<rparr>) =
   Obj [(''price_usd'', Num (Fin (1 / 2))), (''token_mint'', Str ''So1anaMint''),
        (''transactions'',
         Arr [Obj [(''kind'', Str ''burn''), (''amount_sol'', Num (Fin (5 / 2))),
                   (''description'', Str [CHR ''a'', CHR 0x22, CHR 0x0A])], Null, Bool True])]"
  by (rule cache_roundtrip)
     (simp_all add: num_ok_def en_US_def num_eval json_number_def number_char_def is_digit_def
        plain_decimal_def digits_value_def Let_def canonical_keys_def is_index_def)

end
